theory Spec2Isabelle
  imports Main "HOL-Library.AList" "HOL-Library.Sublist"
begin

section \<open>The bounded queue of the standard library\<close>

text \<open>
  \<^verbatim>\<open>queue.Queue(maxsize)\<close> of the Python standard library, as its documentation gives it:
  a FIFO of items behind one mutex; \<^verbatim>\<open>maxsize <= 0\<close> means no bound.  Every operation
  takes effect at one moment (under the mutex), so a run of several threads is an
  interleaving of these operations.  \<^verbatim>\<open>put(item, timeout=t)\<close> raises \<^verbatim>\<open>Full\<close> only when
  the wait ends with the queue still at its bound, and stores the item only when there is
  room; \<^verbatim>\<open>get(timeout=t)\<close> raises \<^verbatim>\<open>Empty\<close> only when the wait ends with no item.  A call
  that waits and then succeeds is the same operation taking effect later in the
  interleaving, so each function below gives the outcome at the moment the call takes
  effect.
\<close>

record 'a Queue =
  maxsize :: int
  items :: "'a list"

datatype queue_exc = Full | Empty

definition Queue_init :: "int \<Rightarrow> 'a Queue" where
  "Queue_init n = \<lparr>maxsize = n, items = []\<rparr>"

definition qsize :: "'a Queue \<Rightarrow> nat" where
  "qsize q = length (items q)"

definition full :: "'a Queue \<Rightarrow> bool" where
  "full q = (0 < maxsize q \<and> maxsize q \<le> int (qsize q))"

definition put :: "'a \<Rightarrow> 'a Queue \<Rightarrow> queue_exc + 'a Queue" where
  "put item q = (if full q then Inl Full else Inr (q\<lparr>items := items q @ [item]\<rparr>))"

definition get :: "'a Queue \<Rightarrow> queue_exc + ('a \<times> 'a Queue)" where
  "get q = (case items q of [] \<Rightarrow> Inl Empty | x # xs \<Rightarrow> Inr (x, q\<lparr>items := xs\<rparr>))"

text \<open>\<open>pops n q\<close>: \<open>n\<close> calls of \<open>get\<close> in a row; the items they return, up to the first
  \<^verbatim>\<open>Empty\<close>, and the queue left.\<close>

fun pops :: "nat \<Rightarrow> 'a Queue \<Rightarrow> 'a list \<times> 'a Queue" where
  "pops 0 q = ([], q)"
| "pops (Suc n) q =
     (case get q of
        Inl _ \<Rightarrow> ([], q)
      | Inr (x, q') \<Rightarrow> (case pops n q' of (xs, q'') \<Rightarrow> (x # xs, q'')))"

text \<open>\<open>puts xs q\<close>: one \<open>put\<close> per item of \<open>xs\<close> with no \<open>get\<close> in between; the outcome of
  each call (\<open>True\<close> for stored, \<open>False\<close> for \<^verbatim>\<open>Full\<close>) and the queue left.\<close>

fun puts :: "'a list \<Rightarrow> 'a Queue \<Rightarrow> bool list \<times> 'a Queue" where
  "puts [] q = ([], q)"
| "puts (x # xs) q =
     (case put x q of
        Inl _ \<Rightarrow> (case puts xs q of (bs, q') \<Rightarrow> (False # bs, q'))
      | Inr q1 \<Rightarrow> (case puts xs q1 of (bs, q') \<Rightarrow> (True # bs, q')))"

section \<open>The five interfaces of an action\<close>

datatype ActionInterfaces =
  GOAL_SERVICE | CANCEL_SERVICE | RESULT_SERVICE | FEEDBACK_TOPIC | STATUS_TOPIC

text \<open>The members in definition order, as iterating the enum gives them.\<close>

definition ActionInterfaces_members :: "ActionInterfaces list" where
  "ActionInterfaces_members =
     [GOAL_SERVICE, CANCEL_SERVICE, RESULT_SERVICE, FEEDBACK_TOPIC, STATUS_TOPIC]"

fun enum_value :: "ActionInterfaces \<Rightarrow> string" where
  "enum_value GOAL_SERVICE = ''GOAL_SERVICE''"
| "enum_value CANCEL_SERVICE = ''CANCEL_SERVICE''"
| "enum_value RESULT_SERVICE = ''RESULT_SERVICE''"
| "enum_value FEEDBACK_TOPIC = ''FEEDBACK_TOPIC''"
| "enum_value STATUS_TOPIC = ''STATUS_TOPIC''"

text \<open>\<^verbatim>\<open>str.lower()\<close> on ASCII text (the source applies it to the enum values only).\<close>

definition lower_char :: "char \<Rightarrow> char" where
  "lower_char c =
     (let n = (of_char c :: nat) in if 65 \<le> n \<and> n \<le> 90 then char_of (n + 32) else c)"

definition lower :: "string \<Rightarrow> string" where
  "lower s = map lower_char s"

section \<open>Rendered messages\<close>

text \<open>
  What \<^verbatim>\<open>message_to_ordereddict\<close> returns: an ordered dictionary from field names to
  values, a value being a number, a truth value, a string, a list, or again a dictionary.
  An ordered dictionary is an association list (the first pair of a key is the entry).
\<close>

datatype pyval =
  PInt int
| PBool bool
| PStr string
| PList "pyval list"
| PDict "(string \<times> pyval) list"

type_synonym msgdict = "(string \<times> pyval) list"

datatype py_error = TypeError | KeyError

text \<open>The operator \<^verbatim>\<open>key in v\<close> for a string \<open>key\<close>: key membership in a dictionary,
  substring test on a string, element membership in a list, \<^verbatim>\<open>TypeError\<close> on the rest.\<close>

fun py_in :: "string \<Rightarrow> pyval \<Rightarrow> py_error + bool" where
  "py_in k (PDict d) = Inr (map_of d k \<noteq> None)"
| "py_in k (PStr s) = Inr (sublist k s)"
| "py_in k (PList l) = Inr (PStr k \<in> set l)"
| "py_in k (PInt _) = Inl TypeError"
| "py_in k (PBool _) = Inl TypeError"

text \<open>\<^verbatim>\<open>v[key]\<close> for a string \<open>key\<close>: only a dictionary can be indexed by a string.\<close>

fun py_getitem :: "pyval \<Rightarrow> string \<Rightarrow> py_error + pyval" where
  "py_getitem (PDict d) k = (case map_of d k of None \<Rightarrow> Inl KeyError | Some v \<Rightarrow> Inr v)"
| "py_getitem _ k = Inl TypeError"

text \<open>\<^verbatim>\<open>self._event_number_to_name[v]\<close>: the table's keys are integers; \<^verbatim>\<open>True\<close> and \<^verbatim>\<open>False\<close>
  hash and compare as 1 and 0, a string is never a key, lists and dictionaries are not
  hashable.\<close>

fun table_lookup :: "(int \<times> string) list \<Rightarrow> pyval \<Rightarrow> py_error + string" where
  "table_lookup t (PInt n) = (case map_of t n of None \<Rightarrow> Inl KeyError | Some s \<Rightarrow> Inr s)"
| "table_lookup t (PBool b) =
     (case map_of t (if b then 1 else 0) of None \<Rightarrow> Inl KeyError | Some s \<Rightarrow> Inr s)"
| "table_lookup t (PStr _) = Inl KeyError"
| "table_lookup t (PList _) = Inl TypeError"
| "table_lookup t (PDict _) = Inl TypeError"

text \<open>\<^verbatim>\<open>EchoVerb.__init__\<close>: the table from event number to constant name, built by
  inverting the constants of \<^verbatim>\<open>ServiceEventInfo\<close> (a later constant with the same number
  replaces an earlier one).\<close>

definition init_event_number_to_name :: "(string \<times> int) list \<Rightarrow> (int \<times> string) list" where
  "init_event_number_to_name constants =
     foldl (\<lambda>t (k, v). AList.update v k t) [] constants"

section \<open>The state of the command\<close>

text \<open>
  The external collaborators of the callbacks, taken as parameters: the two renderers of
  \<^verbatim>\<open>rosidl_runtime_py\<close> (arguments: the message, \<^verbatim>\<open>truncate_length\<close>, \<^verbatim>\<open>no_arr\<close>, \<^verbatim>\<open>no_str\<close>)
  and \<^verbatim>\<open>yaml.dump\<close> (arguments: the dictionary and \<^verbatim>\<open>default_flow_style\<close>).
\<close>

record 'm externals =
  message_to_csv :: "'m \<Rightarrow> int option \<Rightarrow> bool \<Rightarrow> bool \<Rightarrow> string"
  message_to_ordereddict :: "'m \<Rightarrow> int option \<Rightarrow> bool \<Rightarrow> bool \<Rightarrow> msgdict"
  yaml_dump :: "msgdict \<Rightarrow> bool \<Rightarrow> string"

text \<open>Where the thread running \<^verbatim>\<open>message_handler\<close> stands: at the test of the \<^verbatim>\<open>while\<close>,
  in the call of \<^verbatim>\<open>get\<close>, before \<^verbatim>\<open>print(message)\<close> with the message it got, or returned.\<close>

datatype handler_pc = AtWhile | AtGet | AtPrint string | Finished

text \<open>What \<^verbatim>\<open>main\<close> does to the world outside the object, in the order it does it.\<close>

datatype effect =
  NodeEntered
| NodeExited
| QueueCreated int
| ThreadStarted
| SubscriptionCreated ActionInterfaces
| NodeAdded
| NodeRemoved
| SubscriptionDestroyed ActionInterfaces
| RunThreadSet bool
| ThreadJoined nat

text \<open>
  The fields of \<^verbatim>\<open>self\<close> set by \<^verbatim>\<open>__init__\<close> and \<^verbatim>\<open>main\<close>, the local variables of \<^verbatim>\<open>main\<close>
  shared with the thread (\<^verbatim>\<open>run_thread\<close>, the subscriptions that are not \<^verbatim>\<open>None\<close>), the
  thread's position, what has been printed (one entry per call of \<^verbatim>\<open>print\<close>) and the
  effects so far.
\<close>

record world =
  self_csv :: bool
  self_truncate_length :: "int option"
  self_flow_style :: bool
  self_no_arr :: bool
  self_no_str :: bool
  event_number_to_name :: "(int \<times> string) list"
  output_msg_queue :: "string Queue"
  run_thread :: bool
  handler :: handler_pc
  subscriptions :: "ActionInterfaces list"
  stdout :: "string list"
  effects :: "effect list"

section \<open>The callbacks\<close>

definition py_setitem :: "pyval \<Rightarrow> string \<Rightarrow> pyval \<Rightarrow> py_error + pyval" where
  "py_setitem c k v = (case c of PDict d \<Rightarrow> Inr (PDict (AList.update k v d)) | _ \<Rightarrow> Inl TypeError)"

text \<open>Lines 265 to 268: the number under \<^verbatim>\<open>msgdict['info']['event_type']\<close> is replaced by
  its name.  \<^verbatim>\<open>info\<close> is the object stored in \<^verbatim>\<open>msgdict\<close>, so the assignment shows in
  \<^verbatim>\<open>msgdict\<close>, at the place the key already has.\<close>

definition replace_event_type :: "(int \<times> string) list \<Rightarrow> msgdict \<Rightarrow> py_error + msgdict" where
  "replace_event_type t msgdict =
     (case map_of msgdict ''info'' of
        None \<Rightarrow> Inr msgdict
      | Some info \<Rightarrow>
          (case py_in ''event_type'' info of
             Inl e \<Rightarrow> Inl e
           | Inr b \<Rightarrow>
               if \<not> b then Inr msgdict
               else (case py_getitem info ''event_type'' of
                       Inl e \<Rightarrow> Inl e
                     | Inr v \<Rightarrow>
                         (case table_lookup t v of
                            Inl e \<Rightarrow> Inl e
                          | Inr name \<Rightarrow>
                              (case py_setitem info ''event_type'' (PStr name) of
                                 Inl e \<Rightarrow> Inl e
                               | Inr info' \<Rightarrow> Inr (AList.update ''info'' info' msgdict))))))"

definition interface_line :: "string \<Rightarrow> string" where
  "interface_line interface = ''interface: '' @ interface @ [CHR 0x0A]"

text \<open>Lines 253 to 273: the text \<^verbatim>\<open>to_print\<close> that the callback is about to enqueue.\<close>

definition to_print :: "'m externals \<Rightarrow> world \<Rightarrow> 'm \<Rightarrow> string \<Rightarrow> py_error + string" where
  "to_print ext self msg interface =
     (if self_csv self then
        Inr (interface_line interface @
             message_to_csv ext msg (self_truncate_length self) (self_no_arr self) (self_no_str self))
      else
        (case replace_event_type (event_number_to_name self)
                (message_to_ordereddict ext msg (self_truncate_length self)
                   (self_no_arr self) (self_no_str self)) of
           Inl e \<Rightarrow> Inl e
         | Inr msgdict \<Rightarrow>
             Inr (interface_line interface @ yaml_dump ext msgdict (self_flow_style self) @ ''---'')))"

definition full_warning :: string where
  "full_warning =
     ''Output message is full! Please increase the queue size of output message by '' @
     [CHR 0x22] @ ''--queue_size'' @ [CHR 0x22]"

text \<open>\<^verbatim>\<open>_base_subscriber_callback\<close>: \<open>Inl\<close> is an exception leaving the callback.\<close>

definition base_subscriber_callback ::
  "'m externals \<Rightarrow> 'm \<Rightarrow> string \<Rightarrow> world \<Rightarrow> py_error + world" where
  "base_subscriber_callback ext msg interface self =
     (case to_print ext self msg interface of
        Inl e \<Rightarrow> Inl e
      | Inr text \<Rightarrow>
          (case put text (output_msg_queue self) of
             Inr q \<Rightarrow> Inr (self\<lparr>output_msg_queue := q\<rparr>)
           | Inl _ \<Rightarrow> Inr (self\<lparr>stdout := stdout self @ [full_warning]\<rparr>)))"

definition send_goal_subscriber_callback ::
  "'m externals \<Rightarrow> 'm \<Rightarrow> world \<Rightarrow> py_error + world" where
  "send_goal_subscriber_callback ext msg self =
     base_subscriber_callback ext msg (enum_value GOAL_SERVICE) self"

definition cancel_goal_subscriber_callback ::
  "'m externals \<Rightarrow> 'm \<Rightarrow> world \<Rightarrow> py_error + world" where
  "cancel_goal_subscriber_callback ext msg self =
     base_subscriber_callback ext msg (enum_value CANCEL_SERVICE) self"

definition get_result_subscriber_callback ::
  "'m externals \<Rightarrow> 'm \<Rightarrow> world \<Rightarrow> py_error + world" where
  "get_result_subscriber_callback ext msg self =
     base_subscriber_callback ext msg (enum_value RESULT_SERVICE) self"

definition feedback_subscriber_callback ::
  "'m externals \<Rightarrow> 'm \<Rightarrow> world \<Rightarrow> py_error + world" where
  "feedback_subscriber_callback ext msg self =
     base_subscriber_callback ext msg (enum_value FEEDBACK_TOPIC) self"

definition status_subscriber_callback ::
  "'m externals \<Rightarrow> 'm \<Rightarrow> world \<Rightarrow> py_error + world" where
  "status_subscriber_callback ext msg self =
     base_subscriber_callback ext msg (enum_value STATUS_TOPIC) self"

text \<open>The callback that \<^verbatim>\<open>main\<close> registers for each interface (lines 173 to 210).\<close>

fun callback_of ::
  "ActionInterfaces \<Rightarrow> 'm externals \<Rightarrow> 'm \<Rightarrow> world \<Rightarrow> py_error + world" where
  "callback_of GOAL_SERVICE = send_goal_subscriber_callback"
| "callback_of CANCEL_SERVICE = cancel_goal_subscriber_callback"
| "callback_of RESULT_SERVICE = get_result_subscriber_callback"
| "callback_of FEEDBACK_TOPIC = feedback_subscriber_callback"
| "callback_of STATUS_TOPIC = status_subscriber_callback"

text \<open>One \<^verbatim>\<open>executor.spin_once()\<close> that finds a message on an interface: the executor
  calls the callback of that interface's subscription if there is one.\<close>

definition spin_once ::
  "'m externals \<Rightarrow> ActionInterfaces \<Rightarrow> 'm \<Rightarrow> world \<Rightarrow> py_error + world" where
  "spin_once ext i msg w =
     (if i \<in> set (subscriptions w) then callback_of i ext msg w else Inr w)"

section \<open>The output thread\<close>

text \<open>
  One step of the thread running \<^verbatim>\<open>message_handler\<close> (lines 160 to 167).  The loop may run
  for ever, so it is a step function and a run is a number of steps; a thread that waits
  in \<^verbatim>\<open>get\<close> is one that takes no step.  \<^verbatim>\<open>task_done()\<close> only counts, and nothing reads
  the count.
\<close>

definition message_handler :: "world \<Rightarrow> world" where
  "message_handler w =
     (case handler w of
        AtWhile \<Rightarrow> if run_thread w then w\<lparr>handler := AtGet\<rparr> else w\<lparr>handler := Finished\<rparr>
      | AtGet \<Rightarrow>
          (case get (output_msg_queue w) of
             Inl _ \<Rightarrow> w\<lparr>handler := AtWhile\<rparr>
           | Inr (message, q) \<Rightarrow> w\<lparr>output_msg_queue := q, handler := AtPrint message\<rparr>)
      | AtPrint message \<Rightarrow> w\<lparr>stdout := stdout w @ [message], handler := AtWhile\<rparr>
      | Finished \<Rightarrow> w)"

text \<open>A run of the two threads while the executor spins: each tick is one callback run
  by \<^verbatim>\<open>spin_once\<close> or one step of the output thread.  An exception of a callback ends it.\<close>

datatype 'm tick = Callback ActionInterfaces 'm | Handler

fun run :: "'m externals \<Rightarrow> 'm tick list \<Rightarrow> world \<Rightarrow> py_error + world" where
  "run ext [] w = Inr w"
| "run ext (Handler # ts) w = run ext ts (message_handler w)"
| "run ext (Callback i msg # ts) w =
     (case spin_once ext i msg w of Inl e \<Rightarrow> Inl e | Inr w' \<Rightarrow> run ext ts w')"

text \<open>The records that the callbacks of a run stored in the queue (their \<^verbatim>\<open>put\<close> did not
  raise \<^verbatim>\<open>Full\<close>), in the order of the calls.\<close>

fun enqueued :: "'m externals \<Rightarrow> 'm tick list \<Rightarrow> world \<Rightarrow> string list" where
  "enqueued ext [] w = []"
| "enqueued ext (Handler # ts) w = enqueued ext ts (message_handler w)"
| "enqueued ext (Callback i msg # ts) w =
     (case spin_once ext i msg w of
        Inl e \<Rightarrow> []
      | Inr w' \<Rightarrow>
          (if i \<in> set (subscriptions w) then
             (case to_print ext w msg (enum_value i) of
                Inl e \<Rightarrow> []
              | Inr text \<Rightarrow> (case put text (output_msg_queue w) of Inl _ \<Rightarrow> [] | Inr _ \<Rightarrow> [text]))
           else []) @ enqueued ext ts w')"

text \<open>The messages that \<^verbatim>\<open>get\<close> returned to the output thread during a run, in the
  order of the calls.\<close>

fun got :: "'m externals \<Rightarrow> 'm tick list \<Rightarrow> world \<Rightarrow> string list" where
  "got ext [] w = []"
| "got ext (Handler # ts) w =
     (case handler w of
        AtGet \<Rightarrow> (case get (output_msg_queue w) of Inl _ \<Rightarrow> [] | Inr (message, _) \<Rightarrow> [message])
      | _ \<Rightarrow> []) @ got ext ts (message_handler w)"
| "got ext (Callback i msg # ts) w =
     (case spin_once ext i msg w of Inl e \<Rightarrow> [] | Inr w' \<Rightarrow> got ext ts w')"

section \<open>The command\<close>

record args =
  action_name :: string
  action_type :: "string option"
  interfaces :: "string list"
  queue_size :: int
  csv :: bool
  full_length :: bool
  truncate_length :: int
  no_arr :: bool
  no_str :: bool
  flow_style :: bool

text \<open>How \<^verbatim>\<open>main\<close> can end without having run: it returns a text (which the command line
  tool reports as its error), it raises \<^verbatim>\<open>RuntimeError\<close>, the argument parser has refused
  the command line, or an exception of a callback has left the executor.\<close>

datatype outcome =
  Returned string
| RuntimeError string
| ConfigurationError string
| CallbackRaised py_error

text \<open>What \<^verbatim>\<open>get_action_class\<close> or \<^verbatim>\<open>get_action\<close> (external) does: raise one of the three
  exceptions \<^verbatim>\<open>main\<close> catches, return \<^verbatim>\<open>None\<close>, or return the action's module.\<close>

datatype resolution = ResolutionFails | ResolvedNone | Resolved

definition action_interfaces_list :: "string list" where
  "action_interfaces_list = map (\<lambda>interface. lower (enum_value interface)) ActionInterfaces_members"

definition incorrect_interface :: "string \<Rightarrow> string" where
  "incorrect_interface input_interface =
     [CHR 0x22] @ input_interface @ [CHR 0x22] @ '' is incorrect interface name.''"

definition create_subscription :: "args \<Rightarrow> ActionInterfaces \<Rightarrow> world \<Rightarrow> world" where
  "create_subscription a i w =
     (if interfaces a = [] \<or> lower (enum_value i) \<in> set (interfaces a)
      then w\<lparr>subscriptions := subscriptions w @ [i],
             effects := effects w @ [SubscriptionCreated i]\<rparr>
      else w)"

definition destroy :: "ActionInterfaces \<Rightarrow> world \<Rightarrow> world" where
  "destroy i w =
     (if i \<in> set (subscriptions w)
      then w\<lparr>subscriptions := removeAll i (subscriptions w),
             effects := effects w @ [SubscriptionDestroyed i]\<rparr>
      else w)"

text \<open>Lines 112 to 214 of \<^verbatim>\<open>main\<close>: up to the executor's loop.  \<open>Inl\<close> carries how \<^verbatim>\<open>main\<close>
  ended and the effects it had until then; \<open>tab\<close> is the table \<^verbatim>\<open>__init__\<close> built.\<close>

definition main_setup ::
  "args \<Rightarrow> resolution \<Rightarrow> (int \<times> string) list \<Rightarrow> (outcome \<times> effect list) + world" where
  "main_setup a res tab =
     (case find (\<lambda>input_interface. input_interface \<notin> set action_interfaces_list) (interfaces a) of
        Some input_interface \<Rightarrow> Inl (Returned (incorrect_interface input_interface), [])
      | None \<Rightarrow>
          (let e0 = (if action_type a = None then [NodeEntered, NodeExited] else []) in
           case res of
             ResolutionFails \<Rightarrow>
               Inl (RuntimeError
                      (case action_type a of
                         None \<Rightarrow> ''The action name '' @ [CHR 0x27] @ action_name a @ [CHR 0x27] @ '' is invalid''
                       | Some t \<Rightarrow> ''The service type '' @ [CHR 0x27] @ t @ [CHR 0x27] @ '' is invalid''),
                    e0)
           | ResolvedNone \<Rightarrow>
               Inl (RuntimeError ''Could not load the type for the passed action'', e0)
           | Resolved \<Rightarrow>
               (let w0 = \<lparr>self_csv = csv a,
                          self_truncate_length =
                            (if \<not> full_length a then Some (truncate_length a) else None),
                          self_flow_style = flow_style a,
                          self_no_arr = no_arr a,
                          self_no_str = no_str a,
                          event_number_to_name = tab,
                          output_msg_queue = Queue_init (queue_size a),
                          run_thread = True,
                          handler = AtWhile,
                          subscriptions = [],
                          stdout = [],
                          effects = e0 @ [QueueCreated (queue_size a), ThreadStarted, NodeEntered]\<rparr>;
                    w1 = create_subscription a GOAL_SERVICE w0;
                    w2 = create_subscription a CANCEL_SERVICE w1;
                    w3 = create_subscription a RESULT_SERVICE w2;
                    w4 = create_subscription a FEEDBACK_TOPIC w3;
                    w5 = create_subscription a STATUS_TOPIC w4
                in Inr (w5\<lparr>effects := effects w5 @ [NodeAdded]\<rparr>))))"

text \<open>Lines 219 to 235 of \<^verbatim>\<open>main\<close>: after the executor's loop has ended by an interrupt or
  because the context is no longer valid.\<close>

definition main_shutdown :: "world \<Rightarrow> world" where
  "main_shutdown w =
     (let w0 = w\<lparr>effects := effects w @ [NodeRemoved]\<rparr>;
          w1 = destroy GOAL_SERVICE w0;
          w2 = destroy CANCEL_SERVICE w1;
          w3 = destroy RESULT_SERVICE w2;
          w4 = destroy FEEDBACK_TOPIC w3;
          w5 = destroy STATUS_TOPIC w4;
          w6 = w5\<lparr>run_thread := False, effects := effects w5 @ [RunThreadSet False]\<rparr>
      in if handler w6 \<noteq> Finished then w6\<lparr>effects := effects w6 @ [ThreadJoined 1]\<rparr> else w6)"

text \<open>
  \<^verbatim>\<open>main\<close>: \<open>ticks\<close> is what happens while the executor spins.  Steps of the output thread
  during lines 219 to 231 touch neither the subscriptions nor the effects, so they count
  as the last ticks; its steps after line 233 are steps of \<open>message_handler\<close> from the
  world returned.
\<close>

definition main ::
  "'m externals \<Rightarrow> args \<Rightarrow> resolution \<Rightarrow> (int \<times> string) list \<Rightarrow> 'm tick list \<Rightarrow>
   (outcome \<times> effect list) + world" where
  "main ext a res tab ticks =
     (case main_setup a res tab of
        Inl end_ \<Rightarrow> Inl end_
      | Inr w \<Rightarrow>
          (case run ext ticks w of
             Inl e \<Rightarrow> Inl (CallbackRaised e, effects w @ [NodeRemoved, NodeExited])
           | Inr w' \<Rightarrow>
               (let w'' = main_shutdown w' in Inr (w''\<lparr>effects := effects w'' @ [NodeExited]\<rparr>))))"

section \<open>The command line\<close>

text \<open>The values given on the command line: \<open>None\<close> for an option that is absent, the
  integer that the text of \<^verbatim>\<open>--queue-size\<close> or \<^verbatim>\<open>--truncate-length\<close> denotes.\<close>

record command_line =
  given_action_name :: string
  given_action_type :: "string option"
  given_interfaces :: "string list"
  given_queue_size :: "int option"
  given_csv :: bool
  given_full_length :: bool
  given_truncate_length :: "int option"
  given_no_arr :: bool
  given_no_str :: bool
  given_flow_style :: bool

text \<open>Modelled from the spec: \<^verbatim>\<open>ros2cli.helpers.unsigned_int\<close>, the \<^verbatim>\<open>type\<close> of the options
  \<^verbatim>\<open>--queue-size\<close> and \<^verbatim>\<open>--truncate-length\<close>, is not among the sources.  The spec: the
  queue size and the truncate length are positive integers, and a non-positive one is a
  configuration error, reported at once.\<close>

definition unsigned_int :: "int \<Rightarrow> outcome + int" where
  "unsigned_int v =
     (if v \<le> 0 then Inl (ConfigurationError ''value must be a positive integer'') else Inr v)"

definition DEFAULT_TRUNCATE_LENGTH :: int where
  "DEFAULT_TRUNCATE_LENGTH = 128"

text \<open>\<^verbatim>\<open>add_arguments\<close> and the parse it configures: the defaults of lines 81 to 109, and
  the \<^verbatim>\<open>type\<close> of an option applied to the value given.\<close>

definition add_arguments :: "command_line \<Rightarrow> outcome + args" where
  "add_arguments cl =
     (case (case given_queue_size cl of None \<Rightarrow> Inr 100 | Some v \<Rightarrow> unsigned_int v) of
        Inl e \<Rightarrow> Inl e
      | Inr q \<Rightarrow>
          (case (case given_truncate_length cl of
                   None \<Rightarrow> Inr DEFAULT_TRUNCATE_LENGTH
                 | Some v \<Rightarrow> unsigned_int v) of
             Inl e \<Rightarrow> Inl e
           | Inr l \<Rightarrow>
               Inr \<lparr>action_name = given_action_name cl,
                    action_type = given_action_type cl,
                    interfaces = given_interfaces cl,
                    queue_size = q,
                    csv = given_csv cl,
                    full_length = given_full_length cl,
                    truncate_length = l,
                    no_arr = given_no_arr cl,
                    no_str = given_no_str cl,
                    flow_style = given_flow_style cl\<rparr>))"

text \<open>The command from its command line: the parse, then \<^verbatim>\<open>main\<close>.\<close>

definition command ::
  "'m externals \<Rightarrow> command_line \<Rightarrow> resolution \<Rightarrow> (int \<times> string) list \<Rightarrow> 'm tick list \<Rightarrow>
   (outcome \<times> effect list) + world" where
  "command ext cl res tab ticks =
     (case add_arguments cl of
        Inl e \<Rightarrow> Inl (e, [])
      | Inr a \<Rightarrow> main ext a res tab ticks)"

text \<open>Modelled from the spec: the exit status is given by the command line tool, which is
  not among the sources.  The spec: a configuration error, like every error reported,
  makes the process exit non-zero.\<close>

fun exits_nonzero :: "(outcome \<times> effect list) + world \<Rightarrow> bool" where
  "exits_nonzero (Inl _) = True"
| "exits_nonzero (Inr _) = False"

section \<open>Example inputs\<close>

text \<open>A small instance for the collaborators: a message is its own dictionary, the
  dump writes one line per top-level key (strings as they are, the entries of a nested
  dictionary in braces, \<open>#\<close> for the rest), the CSV rendering is fixed.\<close>

definition example_dump :: "msgdict \<Rightarrow> bool \<Rightarrow> string" where
  "example_dump d fs =
     concat (map (\<lambda>(k, v). k @ '': '' @
        (case v of
           PStr s \<Rightarrow> s
         | PDict d' \<Rightarrow>
             ''{'' @ concat (map (\<lambda>(k', v'). k' @ '': '' @
                                 (case v' of PStr s \<Rightarrow> s | _ \<Rightarrow> ''#'') @ '', '') d') @ ''}''
         | _ \<Rightarrow> ''#'') @ [CHR 0x0A]) d)"

definition example_externals :: "msgdict externals" where
  "example_externals =
     \<lparr>message_to_csv = (\<lambda>m t na ns. ''1,2''),
      message_to_ordereddict = (\<lambda>m t na ns. m),
      yaml_dump = example_dump\<rparr>"

definition example_args :: args where
  "example_args =
     \<lparr>action_name = ''/fibonacci'',
      action_type = Some ''example_interfaces/action/Fibonacci'',
      interfaces = [''goal_service'', ''status_topic''],
      queue_size = 2,
      csv = False,
      full_length = False,
      truncate_length = 128,
      no_arr = False,
      no_str = False,
      flow_style = False\<rparr>"

definition example_table :: "(int \<times> string) list" where
  "example_table = [(0, ''REQUEST_SENT''), (1, ''REQUEST_RECEIVED'')]"

definition example_goal_event :: msgdict where
  "example_goal_event = [(''info'', PDict [(''event_type'', PInt 1)]), (''request'', PList [])]"

definition example_status :: msgdict where
  "example_status = [(''status_list'', PList [])]"

definition example_goal_record :: string where
  "example_goal_record =
     ''interface: GOAL_SERVICE'' @ [CHR 0x0A] @
     ''info: {event_type: REQUEST_RECEIVED, }'' @ [CHR 0x0A] @
     ''request: #'' @ [CHR 0x0A] @ ''---''"

definition example_status_record :: string where
  "example_status_record =
     ''interface: STATUS_TOPIC'' @ [CHR 0x0A] @ ''status_list: #'' @ [CHR 0x0A] @ ''---''"

text \<open>The world in which \<^verbatim>\<open>main\<close> enters the executor's loop on \<open>example_args\<close>.\<close>

definition example_world :: world where
  "example_world =
     \<lparr>self_csv = False,
      self_truncate_length = Some 128,
      self_flow_style = False,
      self_no_arr = False,
      self_no_str = False,
      event_number_to_name = example_table,
      output_msg_queue = \<lparr>maxsize = 2, items = []\<rparr>,
      run_thread = True,
      handler = AtWhile,
      subscriptions = [GOAL_SERVICE, STATUS_TOPIC],
      stdout = [],
      effects = [QueueCreated 2, ThreadStarted, NodeEntered,
                 SubscriptionCreated GOAL_SERVICE, SubscriptionCreated STATUS_TOPIC, NodeAdded]\<rparr>"

text \<open>The same world once the two callbacks have each stored a record.\<close>

definition example_loaded :: world where
  "example_loaded =
     example_world\<lparr>output_msg_queue :=
       \<lparr>maxsize = 2, items = [example_goal_record, example_status_record]\<rparr>\<rparr>"

definition example_ticks :: "msgdict tick list" where
  "example_ticks =
     [Callback GOAL_SERVICE example_goal_event, Callback STATUS_TOPIC example_status]"

text \<open>A command line that gives \<open>example_args\<close>.\<close>

definition example_command_line :: command_line where
  "example_command_line =
     \<lparr>given_action_name = ''/fibonacci'',
      given_action_type = Some ''example_interfaces/action/Fibonacci'',
      given_interfaces = [''goal_service'', ''status_topic''],
      given_queue_size = Some 2,
      given_csv = False,
      given_full_length = False,
      given_truncate_length = None,
      given_no_arr = False,
      given_no_str = False,
      given_flow_style = False\<rparr>"

section \<open>The queue\<close>

lemma get_Cons: "items q = x # xs \<Longrightarrow> get q = Inr (x, q\<lparr>items := xs\<rparr>)"
  by (simp add: get_def)

lemma get_Nil: "items q = [] \<Longrightarrow> get q = Inl Empty"
  by (simp add: get_def)

lemma pops_all: "pops (length (items q)) q = (items q, q\<lparr>items := []\<rparr>)"
proof (induction "items q" arbitrary: q)
  case Nil
  then show ?case by simp
next
  case (Cons x xs)
  have g: "get q = Inr (x, q\<lparr>items := xs\<rparr>)"
    using Cons.hyps(2) [symmetric] by (rule get_Cons)
  have "pops (length xs) (q\<lparr>items := xs\<rparr>) = (xs, q\<lparr>items := []\<rparr>)"
    using Cons.hyps(1) [of "q\<lparr>items := xs\<rparr>"] by simp
  with g Cons.hyps(2) [symmetric] show ?case by simp
qed


lemma base_subscriber_callback_Inr:
  assumes "base_subscriber_callback ext msg s w = Inr w'"
  shows "\<exists>r. to_print ext w msg s = Inr r \<and>
           w' = (if full (output_msg_queue w)
                 then w\<lparr>stdout := stdout w @ [full_warning]\<rparr>
                 else w\<lparr>output_msg_queue :=
                          (output_msg_queue w)\<lparr>items := items (output_msg_queue w) @ [r]\<rparr>\<rparr>)"
proof (cases "to_print ext w msg s")
  case (Inl e)
  with assms show ?thesis by (simp add: base_subscriber_callback_def)
next
  case (Inr r)
  show ?thesis
  proof (cases "full (output_msg_queue w)")
    case True
    with Inr assms have "w' = w\<lparr>stdout := stdout w @ [full_warning]\<rparr>"
      by (simp add: base_subscriber_callback_def put_def)
    with Inr True show ?thesis by simp
  next
    case False
    with Inr assms have "w' = w\<lparr>output_msg_queue :=
                          (output_msg_queue w)\<lparr>items := items (output_msg_queue w) @ [r]\<rparr>\<rparr>"
      by (simp add: base_subscriber_callback_def put_def)
    with Inr False show ?thesis by simp
  qed
qed

lemma callback_of_base:
  "callback_of i ext msg w = base_subscriber_callback ext msg (enum_value i) w"
  by (cases i)
    (simp_all add: send_goal_subscriber_callback_def cancel_goal_subscriber_callback_def
      get_result_subscriber_callback_def feedback_subscriber_callback_def
      status_subscriber_callback_def)

lemma spin_once_Inr:
  assumes "spin_once ext i msg w = Inr w'"
  shows "(i \<notin> set (subscriptions w) \<and> w' = w) \<or>
         (i \<in> set (subscriptions w) \<and>
          (\<exists>r. to_print ext w msg (enum_value i) = Inr r \<and>
             w' = (if full (output_msg_queue w)
                   then w\<lparr>stdout := stdout w @ [full_warning]\<rparr>
                   else w\<lparr>output_msg_queue :=
                          (output_msg_queue w)\<lparr>items := items (output_msg_queue w) @ [r]\<rparr>\<rparr>)))"
proof (cases "i \<in> set (subscriptions w)")
  case False
  with assms show ?thesis by (simp add: spin_once_def)
next
  case True
  with assms have "base_subscriber_callback ext msg (enum_value i) w = Inr w'"
    by (simp add: spin_once_def callback_of_base)
  from base_subscriber_callback_Inr [OF this] True show ?thesis by blast
qed

lemma spin_once_bound:
  assumes "spin_once ext i msg w = Inr w'" and "0 < maxsize (output_msg_queue w)"
    and "int (qsize (output_msg_queue w)) \<le> maxsize (output_msg_queue w)"
  shows "maxsize (output_msg_queue w') = maxsize (output_msg_queue w) \<and>
         int (qsize (output_msg_queue w')) \<le> maxsize (output_msg_queue w')"
  using spin_once_Inr [OF assms(1)] assms(2,3)
  by (auto simp: full_def qsize_def split: if_splits)

lemma message_handler_bound:
  "maxsize (output_msg_queue (message_handler w)) = maxsize (output_msg_queue w) \<and>
   qsize (output_msg_queue (message_handler w)) \<le> qsize (output_msg_queue w)"
  by (simp add: message_handler_def get_def qsize_def split: handler_pc.splits list.splits)


lemma run_bound:
  "run ext ticks w = Inr w' \<Longrightarrow> 0 < maxsize (output_msg_queue w) \<Longrightarrow>
   int (qsize (output_msg_queue w)) \<le> maxsize (output_msg_queue w) \<Longrightarrow>
   maxsize (output_msg_queue w') = maxsize (output_msg_queue w) \<and>
   int (qsize (output_msg_queue w')) \<le> maxsize (output_msg_queue w')"
proof (induction ext ticks w rule: run.induct)
  case (1 ext w)
  then show ?case by simp
next
  case (2 ext ts w)
  have "maxsize (output_msg_queue (message_handler w)) = maxsize (output_msg_queue w)"
    and "qsize (output_msg_queue (message_handler w)) \<le> qsize (output_msg_queue w)"
    using message_handler_bound [of w] by simp_all
  with 2 show ?case by simp
next
  case (3 ext i msg ts w)
  from "3.prems"(1) obtain w1 where s: "spin_once ext i msg w = Inr w1" and r: "run ext ts w1 = Inr w'"
    by (cases "spin_once ext i msg w") simp_all
  from spin_once_bound [OF s "3.prems"(2,3)] "3.IH" [OF s r] "3.prems"(2)
  show ?case by simp
qed

lemma puts_fill:
  "int (length (items q) + length xs) \<le> maxsize q \<Longrightarrow>
   puts xs q = (replicate (length xs) True, q\<lparr>items := items q @ xs\<rparr>)"
proof (induction xs arbitrary: q)
  case Nil
  then show ?case by simp
next
  case (Cons x xs)
  from Cons.prems have nf: "\<not> full q" by (simp add: full_def qsize_def)
  have "puts xs (q\<lparr>items := items q @ [x]\<rparr>) =
        (replicate (length xs) True, q\<lparr>items := items q @ [x] @ xs\<rparr>)"
    using Cons.IH [of "q\<lparr>items := items q @ [x]\<rparr>"] Cons.prems by simp
  with nf show ?case by (simp add: put_def)
qed

lemma puts_append:
  "puts (xs @ ys) q = (case puts xs q of (bs, q1) \<Rightarrow> (case puts ys q1 of (cs, q2) \<Rightarrow> (bs @ cs, q2)))"
  by (induction xs arbitrary: q) (auto split: sum.splits prod.splits)

lemma pops_more:
  "length (items q) \<le> n \<Longrightarrow> pops n q = (items q, q\<lparr>items := []\<rparr>)"
proof (induction n arbitrary: q)
  case 0
  then have e: "items q = []" by simp
  have "q\<lparr>items := items q\<rparr> = q" by simp
  with e have "q\<lparr>items := []\<rparr> = q" by simp
  with e show ?case by simp
next
  case (Suc n)
  show ?case
  proof (cases "items q")
    case Nil
    have "q\<lparr>items := items q\<rparr> = q" by simp
    with Nil have "q\<lparr>items := []\<rparr> = q" by simp
    with Nil show ?thesis by (simp add: get_Nil)
  next
    case (Cons x xs)
    with Suc.prems have "length (items (q\<lparr>items := xs\<rparr>)) \<le> n" by simp
    from Suc.IH [OF this] Cons show ?thesis by (simp add: get_Cons)
  qed
qed

lemma create_subscription_queue:
  "output_msg_queue (create_subscription a i w) = output_msg_queue w"
  by (simp add: create_subscription_def)

lemma main_setup_queue:
  assumes "main_setup a res tab = Inr w"
  shows "output_msg_queue w = Queue_init (queue_size a)"
proof -
  from assms have f: "find (\<lambda>n. n \<notin> set action_interfaces_list) (interfaces a) = None"
    by (cases "find (\<lambda>n. n \<notin> set action_interfaces_list) (interfaces a)")
       (simp_all add: main_setup_def)
  from assms f have r: "res = Resolved"
    by (cases res) (simp_all add: main_setup_def Let_def)
  from assms f r show ?thesis
    by (auto simp add: main_setup_def Let_def create_subscription_queue)
qed

section \<open>The example inputs, evaluated\<close>

lemma lower_GOAL_SERVICE: "lower ''GOAL_SERVICE'' = ''goal_service''"
  by code_simp
lemma lower_CANCEL_SERVICE: "lower ''CANCEL_SERVICE'' = ''cancel_service''"
  by code_simp
lemma lower_RESULT_SERVICE: "lower ''RESULT_SERVICE'' = ''result_service''"
  by code_simp
lemma lower_FEEDBACK_TOPIC: "lower ''FEEDBACK_TOPIC'' = ''feedback_topic''"
  by code_simp
lemma lower_STATUS_TOPIC: "lower ''STATUS_TOPIC'' = ''status_topic''"
  by code_simp

lemmas lower_enum_values =
  lower_GOAL_SERVICE lower_CANCEL_SERVICE lower_RESULT_SERVICE lower_FEEDBACK_TOPIC
  lower_STATUS_TOPIC

lemma action_interfaces_list_eq:
  "action_interfaces_list =
     [''goal_service'', ''cancel_service'', ''result_service'', ''feedback_topic'', ''status_topic'']"
  by (simp add: action_interfaces_list_def ActionInterfaces_members_def lower_enum_values)

lemma to_print_frame:
  "to_print ext (w\<lparr>output_msg_queue := q\<rparr>) msg s = to_print ext w msg s"
  "to_print ext (w\<lparr>stdout := out\<rparr>) msg s = to_print ext w msg s"
  "to_print ext (w\<lparr>handler := pc\<rparr>) msg s = to_print ext w msg s"
  "to_print ext (w\<lparr>run_thread := b\<rparr>) msg s = to_print ext w msg s"
  by (simp_all add: to_print_def split: sum.split)

lemma example_world_setup: "main_setup example_args Resolved example_table = Inr example_world"
  by (simp add: main_setup_def action_interfaces_list_eq example_args_def Let_def
      create_subscription_def lower_enum_values example_world_def Queue_init_def)

lemma example_replace:
  "replace_event_type example_table example_goal_event =
   Inr [(''info'', PDict [(''event_type'', PStr ''REQUEST_RECEIVED'')]), (''request'', PList [])]"
  by (simp add: example_goal_event_def replace_event_type_def py_setitem_def example_table_def)

lemma example_goal_to_print:
  "to_print example_externals example_world example_goal_event ''GOAL_SERVICE'' =
   Inr example_goal_record"
  by (simp add: to_print_def example_externals_def example_world_def example_replace
      example_dump_def interface_line_def example_goal_record_def)

lemma example_status_to_print:
  "to_print example_externals example_world example_status ''STATUS_TOPIC'' =
   Inr example_status_record"
  by (simp add: to_print_def example_externals_def example_world_def example_status_def
      replace_event_type_def interface_line_def example_dump_def example_status_record_def)

lemma example_goal_callback:
  "spin_once example_externals GOAL_SERVICE example_goal_event example_world =
   Inr (example_world\<lparr>output_msg_queue := \<lparr>maxsize = 2, items = [example_goal_record]\<rparr>\<rparr>)"
proof -
  have "GOAL_SERVICE \<in> set (subscriptions example_world)" by (simp add: example_world_def)
  moreover have "\<not> full (output_msg_queue example_world)"
    by (simp add: full_def qsize_def example_world_def)
  moreover have "(output_msg_queue example_world)\<lparr>items := items (output_msg_queue example_world) @ [example_goal_record]\<rparr>
     = \<lparr>maxsize = 2, items = [example_goal_record]\<rparr>"
    by (simp add: example_world_def)
  ultimately show ?thesis
    by (simp add: spin_once_def send_goal_subscriber_callback_def base_subscriber_callback_def
        example_goal_to_print put_def)
qed

lemma example_status_callback:
  "spin_once example_externals STATUS_TOPIC example_status
     (example_world\<lparr>output_msg_queue := \<lparr>maxsize = 2, items = [example_goal_record]\<rparr>\<rparr>) =
   Inr example_loaded"
proof -
  let ?w = "example_world\<lparr>output_msg_queue := \<lparr>maxsize = 2, items = [example_goal_record]\<rparr>\<rparr>"
  have "STATUS_TOPIC \<in> set (subscriptions ?w)" by (simp add: example_world_def)
  moreover have "\<not> full (output_msg_queue ?w)"
    by (simp add: full_def qsize_def)
  ultimately show ?thesis
    by (simp add: spin_once_def status_subscriber_callback_def base_subscriber_callback_def
        example_status_to_print to_print_frame put_def example_loaded_def)
qed

lemma example_run: "run example_externals example_ticks example_world = Inr example_loaded"
  by (simp add: example_ticks_def example_goal_callback example_status_callback)

lemma example_full_callback:
  "spin_once example_externals STATUS_TOPIC example_status example_loaded =
   Inr (example_loaded\<lparr>stdout := [full_warning]\<rparr>)"
proof -
  have "STATUS_TOPIC \<in> set (subscriptions example_loaded)"
    by (simp add: example_loaded_def example_world_def)
  moreover have "full (output_msg_queue example_loaded)"
    by (simp add: full_def qsize_def example_loaded_def)
  moreover have "stdout example_loaded = []" by (simp add: example_loaded_def example_world_def)
  ultimately show ?thesis
    by (simp add: spin_once_def status_subscriber_callback_def base_subscriber_callback_def
        example_status_to_print to_print_frame put_def example_loaded_def)
qed

section \<open>Capacity\<close>

text \<open>
  C6.  The queue that \<^verbatim>\<open>main\<close> creates with a positive \<^verbatim>\<open>queue_size\<close> keeps that bound
  and never holds more items than it, whatever the callbacks and the output thread do
  and in whatever order.  On a new queue of that bound, as many \<^verbatim>\<open>put\<close> as the bound
  succeed and one more, with no \<^verbatim>\<open>get\<close> in between, raises \<^verbatim>\<open>Full\<close>; the queue then holds
  as many items as the bound, and the calls of \<^verbatim>\<open>get\<close> return exactly these, the next
  one raising \<^verbatim>\<open>Empty\<close>.
\<close>

theorem queue_size_within_capacity:
  fixes ext :: "'m externals" and rs :: "'r list"
  assumes "0 < queue_size a"
  shows "(\<forall>w0 w. main_setup a res tab = Inr w0 \<and> run ext ticks w0 = Inr w \<longrightarrow>
            maxsize (output_msg_queue w) = queue_size a \<and>
            int (qsize (output_msg_queue w)) \<le> queue_size a) \<and>
         (int (length rs) = queue_size a \<longrightarrow>
            (\<exists>q. puts (rs @ [r]) (Queue_init (queue_size a)) =
                   (replicate (length rs) True @ [False], q) \<and>
                 qsize q = length rs \<and>
                 pops (Suc (length rs)) q = (rs, q\<lparr>items := []\<rparr>)))"
proof (intro conjI allI impI)
  fix w0 w
  assume h: "main_setup a res tab = Inr w0 \<and> run ext ticks w0 = Inr w"
  then have q0: "output_msg_queue w0 = Queue_init (queue_size a)"
    using main_setup_queue [of a res tab w0] by simp
  from h have r: "run ext ticks w0 = Inr w" by simp
  from q0 assms have "0 < maxsize (output_msg_queue w0)"
    and "int (qsize (output_msg_queue w0)) \<le> maxsize (output_msg_queue w0)"
    by (simp_all add: Queue_init_def qsize_def)
  from run_bound [OF r this] q0
  show "maxsize (output_msg_queue w) = queue_size a"
    and "int (qsize (output_msg_queue w)) \<le> queue_size a"
    by (simp_all add: Queue_init_def)
next
  assume len: "int (length rs) = queue_size a"
  let ?c = "queue_size a"
  let ?q = "(Queue_init ?c :: 'r Queue)\<lparr>items := rs\<rparr>"
  have fill: "puts rs (Queue_init ?c) = (replicate (length rs) True, ?q)"
    using puts_fill [of "Queue_init ?c" rs] len by (simp add: Queue_init_def)
  have fl: "full ?q" using len assms by (simp add: full_def qsize_def Queue_init_def)
  have "puts [r] ?q = ([False], ?q)" using fl by (simp add: put_def)
  with fill have p: "puts (rs @ [r]) (Queue_init ?c) = (replicate (length rs) True @ [False], ?q)"
    by (simp add: puts_append)
  have more: "pops (Suc (length rs)) ?q = (rs, ?q\<lparr>items := []\<rparr>)"
    using pops_more [of ?q "Suc (length rs)"] by simp
  from p more
  show "\<exists>q. puts (rs @ [r]) (Queue_init ?c) = (replicate (length rs) True @ [False], q) \<and>
             qsize q = length rs \<and>
             pops (Suc (length rs)) q = (rs, q\<lparr>items := []\<rparr>)"
    by (intro exI [of _ ?q]) (simp add: qsize_def)
qed

theorem queue_size_within_capacity_witness:
  "0 < queue_size example_args \<and>
   main_setup example_args Resolved example_table = Inr example_world \<and>
   run example_externals example_ticks example_world = Inr example_loaded \<and>
   maxsize (output_msg_queue example_loaded) = queue_size example_args \<and>
   int (qsize (output_msg_queue example_loaded)) \<le> queue_size example_args \<and>
   int (length [''a'', ''b'']) = queue_size example_args \<and>
   (\<exists>q. puts ([''a'', ''b''] @ [''c'']) (Queue_init (queue_size example_args)) =
          (replicate (length [''a'', ''b'']) True @ [False], q) \<and>
        qsize q = length [''a'', ''b''] \<and>
        pops (Suc (length [''a'', ''b''])) q = ([''a'', ''b''], q\<lparr>items := []\<rparr>))"
proof -
  have h: "0 < queue_size example_args" by (simp add: example_args_def)
  have l: "int (length [''a'', ''b'']) = queue_size example_args" by (simp add: example_args_def)
  note t = queue_size_within_capacity [where a = example_args and res = Resolved
      and tab = example_table and ext = example_externals and ticks = example_ticks
      and rs = "[''a'', ''b'']" and r = "''c''", OF h]
  from t have "maxsize (output_msg_queue example_loaded) = queue_size example_args \<and>
      int (qsize (output_msg_queue example_loaded)) \<le> queue_size example_args"
    using example_world_setup example_run by blast
  moreover from t l have "(\<exists>q. puts ([''a'', ''b''] @ [''c'']) (Queue_init (queue_size example_args)) =
          (replicate (length [''a'', ''b'']) True @ [False], q) \<and>
        qsize q = length [''a'', ''b''] \<and>
        pops (Suc (length [''a'', ''b''])) q = ([''a'', ''b''], q\<lparr>items := []\<rparr>))"
    by blast
  ultimately show ?thesis using h l example_world_setup example_run by blast
qed


section \<open>Order of the records\<close>

lemma handler_got:
  "(case handler w of
      AtGet \<Rightarrow> (case get (output_msg_queue w) of Inl _ \<Rightarrow> [] | Inr (message, _) \<Rightarrow> [message])
    | _ \<Rightarrow> []) @ items (output_msg_queue (message_handler w)) = items (output_msg_queue w)"
  by (cases "handler w"; cases "items (output_msg_queue w)")
     (simp_all add: message_handler_def get_def)

lemma fifo_run:
  "run ext ticks w = Inr w' \<Longrightarrow>
   got ext ticks w @ items (output_msg_queue w') =
   items (output_msg_queue w) @ enqueued ext ticks w"
proof (induction ext ticks w rule: run.induct)
  case (1 ext w)
  then show ?case by simp
next
  case (2 ext ts w)
  from "2.prems" have r: "run ext ts (message_handler w) = Inr w'" by simp
  define h where "h = (case handler w of
      AtGet \<Rightarrow> (case get (output_msg_queue w) of Inl _ \<Rightarrow> [] | Inr (message, _) \<Rightarrow> [message])
    | _ \<Rightarrow> [])"
  have g: "got ext (Handler # ts) w = h @ got ext ts (message_handler w)"
    unfolding h_def by (simp only: got.simps)
  have e: "enqueued ext (Handler # ts) w = enqueued ext ts (message_handler w)" by simp
  have i: "h @ items (output_msg_queue (message_handler w)) = items (output_msg_queue w)"
    unfolding h_def by (rule handler_got)
  have "got ext (Handler # ts) w @ items (output_msg_queue w') =
        h @ (got ext ts (message_handler w) @ items (output_msg_queue w'))"
    by (simp only: g append_assoc)
  also have "\<dots> = h @ (items (output_msg_queue (message_handler w)) @
                      enqueued ext ts (message_handler w))"
    by (simp only: "2.IH" [OF r])
  also have "\<dots> = items (output_msg_queue w) @ enqueued ext (Handler # ts) w"
    by (simp only: append_assoc [symmetric] i e)
  finally show ?case .
next
  case (3 ext i msg ts w)
  from "3.prems" obtain w1 where s: "spin_once ext i msg w = Inr w1" and r: "run ext ts w1 = Inr w'"
    by (cases "spin_once ext i msg w") simp_all
  note ih = "3.IH" [OF s r]
  from spin_once_Inr [OF s] show ?case
  proof (elim disjE conjE exE)
    assume "i \<notin> set (subscriptions w)" and "w1 = w"
    with ih s show ?thesis by simp
  next
    fix r0
    assume sub: "i \<in> set (subscriptions w)"
      and tp: "to_print ext w msg (enum_value i) = Inr r0"
      and w1: "w1 = (if full (output_msg_queue w)
                   then w\<lparr>stdout := stdout w @ [full_warning]\<rparr>
                   else w\<lparr>output_msg_queue :=
                          (output_msg_queue w)\<lparr>items := items (output_msg_queue w) @ [r0]\<rparr>\<rparr>)"
    show ?thesis
    proof (cases "full (output_msg_queue w)")
      case True
      with w1 have "items (output_msg_queue w1) = items (output_msg_queue w)" by simp
      with ih s sub tp True show ?thesis by (simp add: put_def)
    next
      case False
      with w1 have "items (output_msg_queue w1) = items (output_msg_queue w) @ [r0]" by simp
      with ih s sub tp False show ?thesis by (simp add: put_def)
    qed
  qed
qed

lemma got_no_handler: "Handler \<notin> set ticks \<Longrightarrow> got ext ticks w = []"
proof (induction ext ticks w rule: got.induct)
  case (1 ext w)
  then show ?case by simp
next
  case (2 ext ts w)
  then show ?case by simp
next
  case (3 ext i msg ts w)
  then show ?case by (cases "spin_once ext i msg w") simp_all
qed

text \<open>
  C1.  From the moment \<^verbatim>\<open>main\<close> has created the queue, under every interleaving of
  callbacks (of any of the five interfaces) and steps of the output thread: the records
  that \<^verbatim>\<open>get\<close> returned, followed by what as many further calls of \<^verbatim>\<open>get\<close> as the queue
  holds items return, are exactly the records whose \<^verbatim>\<open>put\<close> succeeded, in the order of
  these calls, whatever their interface.  In particular, when no \<^verbatim>\<open>get\<close> happened in
  between, \<open>N\<close> calls of \<^verbatim>\<open>get\<close> return the \<open>N\<close> records stored, in the order they were
  stored, and \<open>N\<close> is at most the bound of the queue when that is positive.
\<close>

theorem records_popped_in_push_order:
  fixes ext :: "'m externals"
  assumes "main_setup a res tab = Inr w0" and "run ext ticks w0 = Inr w"
  shows "got ext ticks w0 @ fst (pops (qsize (output_msg_queue w)) (output_msg_queue w)) =
           enqueued ext ticks w0 \<and>
         (Handler \<notin> set ticks \<longrightarrow>
            pops (length (enqueued ext ticks w0)) (output_msg_queue w) =
              (enqueued ext ticks w0, (output_msg_queue w)\<lparr>items := []\<rparr>)) \<and>
         (Handler \<notin> set ticks \<and> 0 < queue_size a \<longrightarrow>
            int (length (enqueued ext ticks w0)) \<le> queue_size a)"
proof -
  from main_setup_queue [OF assms(1)] have e: "items (output_msg_queue w0) = []"
    and m: "maxsize (output_msg_queue w0) = queue_size a"
    by (simp_all add: Queue_init_def)
  from fifo_run [OF assms(2)] e
  have f: "got ext ticks w0 @ items (output_msg_queue w) = enqueued ext ticks w0" by simp
  have p: "pops (qsize (output_msg_queue w)) (output_msg_queue w) =
           (items (output_msg_queue w), (output_msg_queue w)\<lparr>items := []\<rparr>)"
    unfolding qsize_def by (rule pops_all)
  from f p have 1: "got ext ticks w0 @ fst (pops (qsize (output_msg_queue w)) (output_msg_queue w)) =
           enqueued ext ticks w0" by simp
  have 2: "pops (length (enqueued ext ticks w0)) (output_msg_queue w) =
              (enqueued ext ticks w0, (output_msg_queue w)\<lparr>items := []\<rparr>)"
    if "Handler \<notin> set ticks"
  proof -
    from f got_no_handler [OF that] have "items (output_msg_queue w) = enqueued ext ticks w0"
      by simp
    with p show ?thesis by (simp add: qsize_def)
  qed
  have 3: "int (length (enqueued ext ticks w0)) \<le> queue_size a"
    if "Handler \<notin> set ticks" and pos: "0 < queue_size a"
  proof -
    from f got_no_handler [OF that(1)] have i: "items (output_msg_queue w) = enqueued ext ticks w0"
      by simp
    from e m pos have "0 < maxsize (output_msg_queue w0)"
      and "int (qsize (output_msg_queue w0)) \<le> maxsize (output_msg_queue w0)"
      by (simp_all add: qsize_def)
    from run_bound [OF assms(2) this] m i show ?thesis by (simp add: qsize_def)
  qed
  from 1 2 3 show ?thesis by blast
qed

lemma example_enqueued:
  "enqueued example_externals example_ticks example_world =
   [example_goal_record, example_status_record]"
proof -
  have "GOAL_SERVICE \<in> set (subscriptions example_world)"
    and "STATUS_TOPIC \<in> set (subscriptions example_world)"
    and "\<not> full (output_msg_queue example_world)"
    and "\<not> full \<lparr>maxsize = 2, items = [example_goal_record]\<rparr>"
    by (simp_all add: example_world_def full_def qsize_def)
  then show ?thesis
    by (simp add: example_ticks_def example_goal_callback example_status_callback
        example_goal_to_print example_status_to_print to_print_frame put_def)
qed

theorem records_popped_in_push_order_witness:
  "main_setup example_args Resolved example_table = Inr example_world \<and>
   run example_externals example_ticks example_world = Inr example_loaded \<and>
   Handler \<notin> set example_ticks \<and> 0 < queue_size example_args \<and>
   enqueued example_externals example_ticks example_world =
     [example_goal_record, example_status_record] \<and>
   pops (length (enqueued example_externals example_ticks example_world))
     (output_msg_queue example_loaded) =
     (enqueued example_externals example_ticks example_world,
      (output_msg_queue example_loaded)\<lparr>items := []\<rparr>) \<and>
   int (length (enqueued example_externals example_ticks example_world)) \<le>
     queue_size example_args"
proof -
  have h: "Handler \<notin> set example_ticks" by (simp add: example_ticks_def)
  have q: "0 < queue_size example_args" by (simp add: example_args_def)
  from records_popped_in_push_order [OF example_world_setup example_run] h q
    example_world_setup example_run example_enqueued
  show ?thesis by blast
qed

section \<open>A full queue\<close>

lemma full_warning_one_line: "CHR 0x0A \<notin> set full_warning"
  by (simp add: full_warning_def)

lemma full_warning_advice: "sublist ''Please increase the queue size'' full_warning"
proof -
  have "full_warning = ''Output message is full! '' @ ''Please increase the queue size'' @
      ('' of output message by '' @ [CHR 0x22] @ ''--queue_size'' @ [CHR 0x22])"
    by (simp add: full_warning_def)
  then show ?thesis unfolding sublist_def by blast
qed

lemma base_subscriber_callback_Inl:
  "base_subscriber_callback ext msg s w = Inl e \<Longrightarrow> to_print ext w msg s = Inl e"
  by (cases "to_print ext w msg s"; cases "full (output_msg_queue w)")
     (simp_all add: base_subscriber_callback_def put_def)

lemma put_Full_iff: "put r q = Inl e \<longleftrightarrow> e = Full \<and> full q"
  by (cases e) (simp_all add: put_def)

text \<open>
  C2.  When \<^verbatim>\<open>put\<close> raises \<^verbatim>\<open>Full\<close> for the record a callback has rendered, the callback
  returns normally: the queue is as it was (the record is dropped) and the only change
  is one call of \<^verbatim>\<open>print\<close> with the warning, which is one line and advises to increase
  the queue size.  The run goes on with the next tick, so later messages are still
  served.  An exception can leave a callback only from the rendering, never from a full
  queue.
\<close>

theorem queue_full_is_recovered:
  fixes ext :: "'m externals"
  assumes "to_print ext w msg (enum_value i) = Inr r"
    and "put r (output_msg_queue w) = Inl Full"
  shows "callback_of i ext msg w = Inr (w\<lparr>stdout := stdout w @ [full_warning]\<rparr>) \<and>
         CHR 0x0A \<notin> set full_warning \<and>
         sublist ''Please increase the queue size'' full_warning \<and>
         (i \<in> set (subscriptions w) \<longrightarrow>
            run ext (Callback i msg # ticks) w =
              run ext ticks (w\<lparr>stdout := stdout w @ [full_warning]\<rparr>)) \<and>
         (\<forall>w' msg' i' e. callback_of i' ext msg' w' = Inl e \<longrightarrow>
            to_print ext w' msg' (enum_value i') = Inl e)"
proof -
  have c: "callback_of i ext msg w = Inr (w\<lparr>stdout := stdout w @ [full_warning]\<rparr>)"
    using assms by (simp add: callback_of_base base_subscriber_callback_def)
  then have "run ext (Callback i msg # ticks) w =
              run ext ticks (w\<lparr>stdout := stdout w @ [full_warning]\<rparr>)"
    if "i \<in> set (subscriptions w)"
    using that by (simp add: spin_once_def)
  moreover have "to_print ext w' msg' (enum_value i') = Inl e"
    if "callback_of i' ext msg' w' = Inl e" for w' msg' i' e
    using that by (simp add: callback_of_base base_subscriber_callback_Inl)
  ultimately show ?thesis
    using c full_warning_one_line full_warning_advice by blast
qed

theorem queue_full_is_recovered_witness:
  "to_print example_externals example_loaded example_status (enum_value STATUS_TOPIC) =
     Inr example_status_record \<and>
   put example_status_record (output_msg_queue example_loaded) = Inl Full \<and>
   STATUS_TOPIC \<in> set (subscriptions example_loaded) \<and>
   callback_of STATUS_TOPIC example_externals example_status example_loaded =
     Inr (example_loaded\<lparr>stdout := stdout example_loaded @ [full_warning]\<rparr>) \<and>
   run example_externals [Callback STATUS_TOPIC example_status] example_loaded =
     Inr (example_loaded\<lparr>stdout := stdout example_loaded @ [full_warning]\<rparr>)"
proof -
  have t: "to_print example_externals example_loaded example_status (enum_value STATUS_TOPIC) =
     Inr example_status_record"
    by (simp add: example_loaded_def to_print_frame example_status_to_print)
  have p: "put example_status_record (output_msg_queue example_loaded) = Inl Full"
    by (simp add: put_def full_def qsize_def example_loaded_def)
  have s: "STATUS_TOPIC \<in> set (subscriptions example_loaded)"
    by (simp add: example_loaded_def example_world_def)
  from queue_full_is_recovered [OF t p, of "[]"] s
  have "callback_of STATUS_TOPIC example_externals example_status example_loaded =
     Inr (example_loaded\<lparr>stdout := stdout example_loaded @ [full_warning]\<rparr>)"
    and "run example_externals [Callback STATUS_TOPIC example_status] example_loaded =
     Inr (example_loaded\<lparr>stdout := stdout example_loaded @ [full_warning]\<rparr>)"
    by simp_all
  with t p s show ?thesis by blast
qed

section \<open>The event type\<close>

lemma replace_event_type_Inr:
  assumes "replace_event_type t md = Inr md'"
  shows "md' = md \<or>
         (\<exists>d v name. map_of md ''info'' = Some (PDict d) \<and> map_of d ''event_type'' = Some v \<and>
            table_lookup t v = Inr name \<and>
            md' = AList.update ''info'' (PDict (AList.update ''event_type'' (PStr name) d)) md)"
proof (cases "map_of md ''info''")
  case None
  with assms show ?thesis by (simp add: replace_event_type_def)
next
  case (Some info)
  show ?thesis
  proof (cases info)
    case (PInt n)
    with Some assms show ?thesis by (simp add: replace_event_type_def)
  next
    case (PBool b)
    with Some assms show ?thesis by (simp add: replace_event_type_def)
  next
    case (PStr s)
    with Some assms show ?thesis by (simp add: replace_event_type_def split: if_splits)
  next
    case (PList l)
    with Some assms show ?thesis by (simp add: replace_event_type_def split: if_splits)
  next
    case (PDict d)
    show ?thesis
    proof (cases "map_of d ''event_type''")
      case None
      with PDict Some assms show ?thesis by (simp add: replace_event_type_def)
    next
      case v: (Some v)
      show ?thesis
      proof (cases "table_lookup t v")
        case (Inl e)
        with v PDict Some assms show ?thesis by (simp add: replace_event_type_def)
      next
        case (Inr name)
        with v PDict Some assms show ?thesis
          by (simp add: replace_event_type_def py_setitem_def)
      qed
    qed
  qed
qed

lemma replace_event_type_no_info:
  "map_of md ''info'' = None \<Longrightarrow> replace_event_type t md = Inr md"
  by (simp add: replace_event_type_def)

lemma replace_event_type_no_event_type:
  "map_of md ''info'' = Some (PDict d) \<Longrightarrow> map_of d ''event_type'' = None \<Longrightarrow>
   replace_event_type t md = Inr md"
  by (simp add: replace_event_type_def)

lemma replace_event_type_number:
  "map_of md ''info'' = Some (PDict d) \<Longrightarrow> map_of d ''event_type'' = Some (PInt n) \<Longrightarrow>
   map_of t n = Some name \<Longrightarrow>
   replace_event_type t md =
     Inr (AList.update ''info'' (PDict (AList.update ''event_type'' (PStr name) d)) md)"
  by (simp add: replace_event_type_def py_setitem_def)

lemma init_table_step:
  "map_of (foldl (\<lambda>t (k, v). AList.update v k t) t cs) n = Some c \<Longrightarrow>
   map_of t n = Some c \<or> (c, n) \<in> set cs"
proof (induction cs arbitrary: t)
  case Nil
  then show ?case by simp
next
  case (Cons x cs)
  obtain k v where x: "x = (k, v)" by (cases x)
  from Cons.prems x
  have "map_of (foldl (\<lambda>t (k, v). AList.update v k t) (AList.update v k t) cs) n = Some c"
    by simp
  from Cons.IH [OF this] have "map_of (AList.update v k t) n = Some c \<or> (c, n) \<in> set cs" .
  then show ?case
    by (auto simp add: x update_conv' split: if_splits)
qed

lemma init_table_names:
  "map_of (init_event_number_to_name constants) n = Some c \<Longrightarrow> (c, n) \<in> set constants"
  using init_table_step [of "[]" constants n c] by (simp add: init_event_number_to_name_def)

lemma example_table_init:
  "init_event_number_to_name [(''REQUEST_SENT'', 0), (''REQUEST_RECEIVED'', 1)] = example_table"
  by (simp add: init_event_number_to_name_def example_table_def)

text \<open>
  C10.  With \<open>md\<close> the dictionary that \<^verbatim>\<open>message_to_ordereddict\<close> returns for the message:
  in CSV mode the record is the interface line and the text of \<^verbatim>\<open>message_to_csv\<close>, as
  it is (the table of names is not consulted); otherwise, when \<open>md\<close> has no key \<^verbatim>\<open>info\<close>, or
  its \<^verbatim>\<open>info\<close> is a dictionary with no key \<^verbatim>\<open>event_type\<close>, \<open>md\<close> is dumped as it is; when
  \<^verbatim>\<open>info\<close> is a dictionary whose \<^verbatim>\<open>event_type\<close> is a number of the table, the dump is that
  of \<open>md\<close> with this number replaced by its name; and a record that is not the dump of
  \<open>md\<close> as it is comes only from an \<^verbatim>\<open>info\<close> dictionary with an \<^verbatim>\<open>event_type\<close> key, by that
  replacement.  A name in the table that \<^verbatim>\<open>__init__\<close> builds is the name of a constant
  with that number.
\<close>

theorem event_type_replaced_by_name:
  fixes ext :: "'m externals"
  assumes "md = message_to_ordereddict ext msg (self_truncate_length w) (self_no_arr w) (self_no_str w)"
  shows "(self_csv w \<longrightarrow>
            to_print ext w msg s =
              Inr (interface_line s @
                   message_to_csv ext msg (self_truncate_length w) (self_no_arr w) (self_no_str w))) \<and>
         (\<not> self_csv w \<and> map_of md ''info'' = None \<longrightarrow>
            to_print ext w msg s =
              Inr (interface_line s @ yaml_dump ext md (self_flow_style w) @ ''---'')) \<and>
         (\<not> self_csv w \<and> map_of md ''info'' = Some (PDict d) \<and> map_of d ''event_type'' = None \<longrightarrow>
            to_print ext w msg s =
              Inr (interface_line s @ yaml_dump ext md (self_flow_style w) @ ''---'')) \<and>
         (\<not> self_csv w \<and> map_of md ''info'' = Some (PDict d) \<and>
          map_of d ''event_type'' = Some (PInt n) \<and>
          map_of (event_number_to_name w) n = Some name \<longrightarrow>
            to_print ext w msg s =
              Inr (interface_line s @
                   yaml_dump ext
                     (AList.update ''info'' (PDict (AList.update ''event_type'' (PStr name) d)) md)
                     (self_flow_style w) @ ''---'')) \<and>
         (\<not> self_csv w \<and> to_print ext w msg s = Inr r \<and>
          r \<noteq> interface_line s @ yaml_dump ext md (self_flow_style w) @ ''---'' \<longrightarrow>
            (\<exists>d' v name'. map_of md ''info'' = Some (PDict d') \<and>
               map_of d' ''event_type'' = Some v \<and>
               table_lookup (event_number_to_name w) v = Inr name' \<and>
               r = interface_line s @
                   yaml_dump ext
                     (AList.update ''info'' (PDict (AList.update ''event_type'' (PStr name') d')) md)
                     (self_flow_style w) @ ''---'')) \<and>
         (map_of (init_event_number_to_name constants) k = Some c \<longrightarrow>
            (c, k) \<in> set constants)"
proof (intro conjI impI)
  assume "self_csv w"
  then show "to_print ext w msg s =
              Inr (interface_line s @
                   message_to_csv ext msg (self_truncate_length w) (self_no_arr w) (self_no_str w))"
    by (simp add: to_print_def)
next
  assume "\<not> self_csv w \<and> map_of md ''info'' = None"
  then show "to_print ext w msg s =
              Inr (interface_line s @ yaml_dump ext md (self_flow_style w) @ ''---'')"
    using assms replace_event_type_no_info [of md "event_number_to_name w"]
    by (simp add: to_print_def)
next
  assume "\<not> self_csv w \<and> map_of md ''info'' = Some (PDict d) \<and> map_of d ''event_type'' = None"
  then show "to_print ext w msg s =
              Inr (interface_line s @ yaml_dump ext md (self_flow_style w) @ ''---'')"
    using assms replace_event_type_no_event_type [of md d "event_number_to_name w"]
    by (simp add: to_print_def)
next
  assume "\<not> self_csv w \<and> map_of md ''info'' = Some (PDict d) \<and>
          map_of d ''event_type'' = Some (PInt n) \<and>
          map_of (event_number_to_name w) n = Some name"
  then show "to_print ext w msg s =
              Inr (interface_line s @
                   yaml_dump ext
                     (AList.update ''info'' (PDict (AList.update ''event_type'' (PStr name) d)) md)
                     (self_flow_style w) @ ''---'')"
    using assms replace_event_type_number [of md d n "event_number_to_name w" name]
    by (simp add: to_print_def)
next
  assume h: "\<not> self_csv w \<and> to_print ext w msg s = Inr r \<and>
          r \<noteq> interface_line s @ yaml_dump ext md (self_flow_style w) @ ''---''"
  then obtain md' where rep: "replace_event_type (event_number_to_name w) md = Inr md'"
    and r: "r = interface_line s @ yaml_dump ext md' (self_flow_style w) @ ''---''"
    using assms
    by (cases "replace_event_type (event_number_to_name w) md") (auto simp: to_print_def)
  from h r have "md' \<noteq> md" by blast
  with replace_event_type_Inr [OF rep] r
  show "\<exists>d' v name'. map_of md ''info'' = Some (PDict d') \<and>
               map_of d' ''event_type'' = Some v \<and>
               table_lookup (event_number_to_name w) v = Inr name' \<and>
               r = interface_line s @
                   yaml_dump ext
                     (AList.update ''info'' (PDict (AList.update ''event_type'' (PStr name') d')) md)
                     (self_flow_style w) @ ''---''"
    by blast
next
  assume "map_of (init_event_number_to_name constants) k = Some c"
  then show "(c, k) \<in> set constants" by (rule init_table_names)
qed


theorem event_type_replaced_by_name_witness:
  "self_csv (example_world\<lparr>self_csv := True\<rparr>) \<and>
   to_print example_externals (example_world\<lparr>self_csv := True\<rparr>) example_goal_event
     ''GOAL_SERVICE'' = Inr (interface_line ''GOAL_SERVICE'' @ ''1,2'') \<and>
   \<not> self_csv example_world \<and>
   map_of example_status ''info'' = None \<and>
   to_print example_externals example_world example_status ''STATUS_TOPIC'' =
     Inr (interface_line ''STATUS_TOPIC'' @ example_dump example_status False @ ''---'') \<and>
   map_of example_goal_event ''info'' = Some (PDict [(''event_type'', PInt 1)]) \<and>
   map_of [(''event_type'', PInt 1)] ''event_type'' = Some (PInt 1) \<and>
   map_of (event_number_to_name example_world) 1 = Some ''REQUEST_RECEIVED'' \<and>
   to_print example_externals example_world example_goal_event ''GOAL_SERVICE'' =
     Inr (interface_line ''GOAL_SERVICE'' @
          example_dump [(''info'', PDict [(''event_type'', PStr ''REQUEST_RECEIVED'')]),
                        (''request'', PList [])] False @ ''---'') \<and>
   map_of (init_event_number_to_name [(''REQUEST_SENT'', 0), (''REQUEST_RECEIVED'', 1)]) 1 =
     Some ''REQUEST_RECEIVED'' \<and>
   (''REQUEST_RECEIVED'', 1) \<in> set [(''REQUEST_SENT'', 0), (''REQUEST_RECEIVED'', 1 :: int)]"
proof -
  let ?c = "example_world\<lparr>self_csv := True\<rparr>"
  have c: "self_csv ?c" by simp
  have mc: "example_goal_event = message_to_ordereddict example_externals example_goal_event
              (self_truncate_length ?c) (self_no_arr ?c) (self_no_str ?c)"
    by (simp add: example_externals_def)
  have mg: "example_goal_event = message_to_ordereddict example_externals example_goal_event
              (self_truncate_length example_world) (self_no_arr example_world)
              (self_no_str example_world)"
    by (simp add: example_externals_def)
  have ms: "example_status = message_to_ordereddict example_externals example_status
              (self_truncate_length example_world) (self_no_arr example_world)
              (self_no_str example_world)"
    by (simp add: example_externals_def)
  have n: "\<not> self_csv example_world" by (simp add: example_world_def)
  have s: "map_of example_status ''info'' = None" by (simp add: example_status_def)
  have i: "map_of example_goal_event ''info'' = Some (PDict [(''event_type'', PInt 1)])"
    by (simp add: example_goal_event_def)
  have e: "map_of [(''event_type'', PInt 1)] ''event_type'' = Some (PInt 1)" by simp
  have t: "map_of (event_number_to_name example_world) 1 = Some ''REQUEST_RECEIVED''"
    by (simp add: example_world_def example_table_def)
  have csv: "\<And>m t a b. message_to_csv example_externals m t a b = ''1,2''"
    and dump: "\<And>d f. yaml_dump example_externals d f = example_dump d f"
    by (simp_all add: example_externals_def)
  have fs: "self_flow_style example_world = False" by (simp add: example_world_def)
  have 1: "to_print example_externals ?c example_goal_event ''GOAL_SERVICE'' =
             Inr (interface_line ''GOAL_SERVICE'' @ ''1,2'')"
  proof -
    have "self_csv ?c \<longrightarrow>
          to_print example_externals ?c example_goal_event ''GOAL_SERVICE'' =
            Inr (interface_line ''GOAL_SERVICE'' @
                 message_to_csv example_externals example_goal_event
                   (self_truncate_length ?c) (self_no_arr ?c) (self_no_str ?c))"
      by (rule event_type_replaced_by_name [OF mc, THEN conjunct1])
    with c show ?thesis by (simp add: csv)
  qed
  have 2: "to_print example_externals example_world example_status ''STATUS_TOPIC'' =
     Inr (interface_line ''STATUS_TOPIC'' @ example_dump example_status False @ ''---'')"
  proof -
    have "\<not> self_csv example_world \<and> map_of example_status ''info'' = None \<longrightarrow>
          to_print example_externals example_world example_status ''STATUS_TOPIC'' =
            Inr (interface_line ''STATUS_TOPIC'' @
                 yaml_dump example_externals example_status (self_flow_style example_world) @
                 ''---'')"
      by (rule event_type_replaced_by_name [OF ms, THEN conjunct2, THEN conjunct1])
    with n s show ?thesis by (simp add: dump fs)
  qed
  have 3: "to_print example_externals example_world example_goal_event ''GOAL_SERVICE'' =
     Inr (interface_line ''GOAL_SERVICE'' @
          example_dump [(''info'', PDict [(''event_type'', PStr ''REQUEST_RECEIVED'')]),
                        (''request'', PList [])] False @ ''---'')"
  proof -
    have u: "AList.update ''info''
               (PDict [(''event_type'', PStr ''REQUEST_RECEIVED'')]) example_goal_event =
             [(''info'', PDict [(''event_type'', PStr ''REQUEST_RECEIVED'')]),
              (''request'', PList [])]"
      by (simp add: example_goal_event_def)
    have "\<not> self_csv example_world \<and>
          map_of example_goal_event ''info'' = Some (PDict [(''event_type'', PInt 1)]) \<and>
          map_of [(''event_type'', PInt 1)] ''event_type'' = Some (PInt 1) \<and>
          map_of (event_number_to_name example_world) 1 = Some ''REQUEST_RECEIVED'' \<longrightarrow>
          to_print example_externals example_world example_goal_event ''GOAL_SERVICE'' =
            Inr (interface_line ''GOAL_SERVICE'' @
                 yaml_dump example_externals
                   (AList.update ''info''
                      (PDict (AList.update ''event_type'' (PStr ''REQUEST_RECEIVED'')
                                [(''event_type'', PInt 1)])) example_goal_event)
                   (self_flow_style example_world) @ ''---'')"
      by (rule event_type_replaced_by_name [OF mg, THEN conjunct2, THEN conjunct2,
            THEN conjunct2, THEN conjunct1])
    with n i e t show ?thesis by (simp add: dump fs u)
  qed
  have 4: "map_of (init_event_number_to_name [(''REQUEST_SENT'', 0), (''REQUEST_RECEIVED'', 1)]) 1 =
     Some ''REQUEST_RECEIVED''"
    by (simp add: example_table_init example_table_def)
  have 5: "(''REQUEST_RECEIVED'', 1) \<in> set [(''REQUEST_SENT'', 0), (''REQUEST_RECEIVED'', 1 :: int)]"
    by (rule event_type_replaced_by_name [OF mg, THEN conjunct2, THEN conjunct2,
          THEN conjunct2, THEN conjunct2, THEN conjunct2, THEN mp, OF 4])
  show ?thesis
    by (intro conjI) (fact c 1 n s 2 i e t 3 4 5)+
qed

section \<open>The layout of a record\<close>

text \<open>
  In CSV mode the goal callback stores, for a message whose CSV rendering is \<^verbatim>\<open>1,2\<close>, the
  record \<^verbatim>\<open>interface: GOAL_SERVICE\<close>, a line break, \<^verbatim>\<open>1,2\<close>: the record is not the list of
  fields alone.
\<close>

theorem csv_record_starts_with_interface_line:
  "self_csv (example_world\<lparr>self_csv := True\<rparr>) \<and>
   message_to_csv example_externals example_goal_event
     (self_truncate_length (example_world\<lparr>self_csv := True\<rparr>))
     (self_no_arr (example_world\<lparr>self_csv := True\<rparr>))
     (self_no_str (example_world\<lparr>self_csv := True\<rparr>)) = ''1,2'' \<and>
   callback_of GOAL_SERVICE example_externals example_goal_event
     (example_world\<lparr>self_csv := True\<rparr>) =
     Inr (example_world\<lparr>self_csv := True,
            output_msg_queue := \<lparr>maxsize = 2,
              items = [''interface: GOAL_SERVICE'' @ [CHR 0x0A] @ ''1,2'']\<rparr>\<rparr>) \<and>
   ''interface: GOAL_SERVICE'' @ [CHR 0x0A] @ ''1,2'' \<noteq> ''1,2''"
proof -
  have "\<not> full (output_msg_queue (example_world\<lparr>self_csv := True\<rparr>))"
    by (simp add: full_def qsize_def example_world_def)
  moreover have "to_print example_externals (example_world\<lparr>self_csv := True\<rparr>)
      example_goal_event ''GOAL_SERVICE'' = Inr (''interface: GOAL_SERVICE'' @ [CHR 0x0A] @ ''1,2'')"
    by (simp add: to_print_def interface_line_def example_externals_def)
  moreover have "(output_msg_queue (example_world\<lparr>self_csv := True\<rparr>))
      \<lparr>items := items (output_msg_queue (example_world\<lparr>self_csv := True\<rparr>)) @
         [''interface: GOAL_SERVICE'' @ [CHR 0x0A] @ ''1,2'']\<rparr> =
      \<lparr>maxsize = 2, items = [''interface: GOAL_SERVICE'' @ [CHR 0x0A] @ ''1,2'']\<rparr>"
    by (simp add: example_world_def)
  ultimately have "callback_of GOAL_SERVICE example_externals example_goal_event
     (example_world\<lparr>self_csv := True\<rparr>) =
     Inr (example_world\<lparr>self_csv := True,
            output_msg_queue := \<lparr>maxsize = 2,
              items = [''interface: GOAL_SERVICE'' @ [CHR 0x0A] @ ''1,2'']\<rparr>\<rparr>)"
    by (simp add: send_goal_subscriber_callback_def base_subscriber_callback_def put_def)
  moreover have "message_to_csv example_externals example_goal_event
     (self_truncate_length (example_world\<lparr>self_csv := True\<rparr>))
     (self_no_arr (example_world\<lparr>self_csv := True\<rparr>))
     (self_no_str (example_world\<lparr>self_csv := True\<rparr>)) = ''1,2''"
    by (simp add: example_externals_def)
  ultimately show ?thesis by simp
qed

text \<open>
  C7, as the code has it.  The record a callback stores begins, in both modes, with the
  line \<^verbatim>\<open>interface: \<close> and the value of the interface.  In CSV mode the rest is the text
  of \<^verbatim>\<open>message_to_csv\<close>, with no end mark; otherwise the rest is the dump of the
  dictionary (after the replacement of the event type) and the end mark \<^verbatim>\<open>---\<close>.
\<close>

theorem record_layout:
  fixes ext :: "'m externals"
  assumes "callback_of i ext msg w = Inr w'" and "\<not> full (output_msg_queue w)"
  shows "\<exists>r. items (output_msg_queue w') = items (output_msg_queue w) @ [r] \<and>
           prefix (''interface: '' @ enum_value i @ [CHR 0x0A]) r \<and>
           (if self_csv w then
              r = ''interface: '' @ enum_value i @ [CHR 0x0A] @
                  message_to_csv ext msg (self_truncate_length w) (self_no_arr w) (self_no_str w)
            else
              suffix ''---'' r \<and>
              (\<exists>d. replace_event_type (event_number_to_name w)
                     (message_to_ordereddict ext msg (self_truncate_length w)
                        (self_no_arr w) (self_no_str w)) = Inr d \<and>
                   r = ''interface: '' @ enum_value i @ [CHR 0x0A] @
                       yaml_dump ext d (self_flow_style w) @ ''---''))"
proof -
  from assms(1) have "base_subscriber_callback ext msg (enum_value i) w = Inr w'"
    by (simp add: callback_of_base)
  from base_subscriber_callback_Inr [OF this] assms(2)
  obtain r where tp: "to_print ext w msg (enum_value i) = Inr r"
    and w': "w' = w\<lparr>output_msg_queue :=
                   (output_msg_queue w)\<lparr>items := items (output_msg_queue w) @ [r]\<rparr>\<rparr>"
    by auto
  from w' have it: "items (output_msg_queue w') = items (output_msg_queue w) @ [r]" by simp
  show ?thesis
  proof (cases "self_csv w")
    case True
    with tp have r: "r = ''interface: '' @ enum_value i @ [CHR 0x0A] @
                  message_to_csv ext msg (self_truncate_length w) (self_no_arr w) (self_no_str w)"
      by (simp add: to_print_def interface_line_def)
    then have "r = (''interface: '' @ enum_value i @ [CHR 0x0A]) @
                  message_to_csv ext msg (self_truncate_length w) (self_no_arr w) (self_no_str w)"
      by simp
    then have "prefix (''interface: '' @ enum_value i @ [CHR 0x0A]) r"
      by (rule prefixI)
    with it r True show ?thesis by auto
  next
    case False
    with tp obtain d where d: "replace_event_type (event_number_to_name w)
                     (message_to_ordereddict ext msg (self_truncate_length w)
                        (self_no_arr w) (self_no_str w)) = Inr d"
      and r: "r = ''interface: '' @ enum_value i @ [CHR 0x0A] @
                       yaml_dump ext d (self_flow_style w) @ ''---''"
      by (cases "replace_event_type (event_number_to_name w)
                     (message_to_ordereddict ext msg (self_truncate_length w)
                        (self_no_arr w) (self_no_str w))")
         (auto simp: to_print_def interface_line_def)
    from r have "r = (''interface: '' @ enum_value i @ [CHR 0x0A]) @
                       (yaml_dump ext d (self_flow_style w) @ ''---'')"
      by simp
    then have p: "prefix (''interface: '' @ enum_value i @ [CHR 0x0A]) r"
      by (rule prefixI)
    from r have "r = (''interface: '' @ enum_value i @ [CHR 0x0A] @
                       yaml_dump ext d (self_flow_style w)) @ ''---''"
      by simp
    then have s: "suffix ''---'' r"
      by (rule suffixI)
    from it p s d r False show ?thesis by auto
  qed
qed


theorem record_layout_witness:
  "callback_of GOAL_SERVICE example_externals example_goal_event example_world =
     Inr (example_world\<lparr>output_msg_queue := \<lparr>maxsize = 2, items = [example_goal_record]\<rparr>\<rparr>) \<and>
   \<not> full (output_msg_queue example_world) \<and>
   (\<exists>r. items (output_msg_queue
            (example_world\<lparr>output_msg_queue := \<lparr>maxsize = 2, items = [example_goal_record]\<rparr>\<rparr>)) =
          items (output_msg_queue example_world) @ [r] \<and>
        prefix (''interface: '' @ enum_value GOAL_SERVICE @ [CHR 0x0A]) r \<and>
        suffix ''---'' r)"
proof -
  have c: "callback_of GOAL_SERVICE example_externals example_goal_event example_world =
     Inr (example_world\<lparr>output_msg_queue := \<lparr>maxsize = 2, items = [example_goal_record]\<rparr>\<rparr>)"
    using example_goal_callback by (simp add: spin_once_def example_world_def)
  have f: "\<not> full (output_msg_queue example_world)"
    by (simp add: full_def qsize_def example_world_def)
  have n: "\<not> self_csv example_world" by (simp add: example_world_def)
  from record_layout [OF c f] n
  have "\<exists>r. items (output_msg_queue
            (example_world\<lparr>output_msg_queue := \<lparr>maxsize = 2, items = [example_goal_record]\<rparr>\<rparr>)) =
          items (output_msg_queue example_world) @ [r] \<and>
        prefix (''interface: '' @ enum_value GOAL_SERVICE @ [CHR 0x0A]) r \<and>
        suffix ''---'' r"
    by (simp only: if_False) blast
  with c f show ?thesis by blast
qed

section \<open>The requested interfaces\<close>

lemma main_setup_rejects:
  "find (\<lambda>n. n \<notin> set action_interfaces_list) (interfaces a) = Some bad \<Longrightarrow>
   main_setup a res tab = Inl (Returned (incorrect_interface bad), [])"
  by (simp add: main_setup_def)

lemma main_rejects:
  "find (\<lambda>n. n \<notin> set action_interfaces_list) (interfaces a) = Some bad \<Longrightarrow>
   main ext a res tab ticks = Inl (Returned (incorrect_interface bad), [])"
  by (simp add: main_def main_setup_rejects)

lemma main_setup_accepts:
  "find (\<lambda>n. n \<notin> set action_interfaces_list) (interfaces a) = None \<Longrightarrow>
   \<exists>w. main_setup a Resolved tab = Inr w"
  by (simp add: main_setup_def Let_def)

lemma incorrect_interface_names: "sublist bad (incorrect_interface bad)"
  unfolding sublist_def incorrect_interface_def by blast

text \<open>
  C5.  When a requested name is not among the names of the five interfaces, \<^verbatim>\<open>main\<close>
  returns the text that names the first such name of the list as incorrect, and it has
  had no effect by then: no queue, no thread, no node, no subscription.
\<close>

theorem invalid_interface_fails_first:
  fixes ext :: "'m externals"
  assumes "x \<in> set (interfaces a)" and "x \<notin> set action_interfaces_list"
  shows "\<exists>bad. find (\<lambda>n. n \<notin> set action_interfaces_list) (interfaces a) = Some bad \<and>
           bad \<in> set (interfaces a) \<and> bad \<notin> set action_interfaces_list \<and>
           main ext a res tab ticks = Inl (Returned (incorrect_interface bad), []) \<and>
           sublist bad (incorrect_interface bad)"
proof -
  from assms have "find (\<lambda>n. n \<notin> set action_interfaces_list) (interfaces a) \<noteq> None"
    by (auto simp: find_None_iff)
  then obtain bad where f: "find (\<lambda>n. n \<notin> set action_interfaces_list) (interfaces a) = Some bad"
    by blast
  then have "bad \<in> set (interfaces a)" and "bad \<notin> set action_interfaces_list"
    by (auto simp: find_Some_iff)
  with f main_rejects [OF f] incorrect_interface_names show ?thesis by blast
qed

theorem invalid_interface_fails_first_witness:
  "''bogus'' \<in> set (interfaces (example_args\<lparr>interfaces := [''goal_service'', ''bogus'']\<rparr>)) \<and>
   ''bogus'' \<notin> set action_interfaces_list \<and>
   main example_externals (example_args\<lparr>interfaces := [''goal_service'', ''bogus'']\<rparr>)
     Resolved example_table example_ticks =
     Inl (Returned (incorrect_interface ''bogus''), [])"
proof -
  let ?a = "example_args\<lparr>interfaces := [''goal_service'', ''bogus'']\<rparr>"
  have 1: "''bogus'' \<in> set (interfaces ?a)" by simp
  have 2: "''bogus'' \<notin> set action_interfaces_list" by (simp add: action_interfaces_list_eq)
  have 3: "''goal_service'' \<in> set action_interfaces_list" by (simp add: action_interfaces_list_eq)
  from invalid_interface_fails_first [OF 1 2, of example_externals Resolved example_table example_ticks]
  obtain bad where b: "bad \<in> set (interfaces ?a)" "bad \<notin> set action_interfaces_list"
    and m: "main example_externals ?a Resolved example_table example_ticks =
              Inl (Returned (incorrect_interface bad), [])"
    by blast
  from b 3 have "bad = ''bogus''" by auto
  with m 1 2 show ?thesis by simp
qed

text \<open>
  C9.  The names that \<^verbatim>\<open>main\<close> accepts are the five values of the enum in lower case,
  compared as they are written: a list holding one of them passes the check, a list
  holding any other name, such as the value of an interface in upper case or
  \<^verbatim>\<open>Goal_Service\<close>, makes \<^verbatim>\<open>main\<close> return the text that this name is an incorrect
  interface name.
\<close>

theorem interface_names_are_matched_exactly:
  "action_interfaces_list =
     [''goal_service'', ''cancel_service'', ''result_service'', ''feedback_topic'', ''status_topic''] \<and>
   (n \<in> {''goal_service'', ''cancel_service'', ''result_service'', ''feedback_topic'',
          ''status_topic''} \<longrightarrow>
      (\<exists>w. main_setup (a\<lparr>interfaces := [n]\<rparr>) Resolved tab = Inr w)) \<and>
   (n \<notin> {''goal_service'', ''cancel_service'', ''result_service'', ''feedback_topic'',
          ''status_topic''} \<longrightarrow>
      main_setup (a\<lparr>interfaces := [n]\<rparr>) res tab = Inl (Returned (incorrect_interface n), [])) \<and>
   main_setup (a\<lparr>interfaces := [enum_value i]\<rparr>) res tab =
     Inl (Returned (incorrect_interface (enum_value i)), []) \<and>
   main_setup (a\<lparr>interfaces := [''Goal_Service'']\<rparr>) res tab =
     Inl (Returned (incorrect_interface ''Goal_Service''), [])"
proof -
  have s: "{''goal_service'', ''cancel_service'', ''result_service'', ''feedback_topic'',
           ''status_topic''} = set action_interfaces_list"
    by (simp only: action_interfaces_list_eq list.simps(15) empty_set)
  have yes: "\<exists>w. main_setup (a\<lparr>interfaces := [n]\<rparr>) Resolved tab = Inr w"
    if "n \<in> set action_interfaces_list" for n
    using that by (intro main_setup_accepts) simp
  have no: "main_setup (a\<lparr>interfaces := [n]\<rparr>) res tab = Inl (Returned (incorrect_interface n), [])"
    if "n \<notin> set action_interfaces_list" for n
    using that by (intro main_setup_rejects) simp
  have up: "enum_value i \<notin> set action_interfaces_list"
    by (cases i) (simp_all add: action_interfaces_list_eq)
  have mixed: "''Goal_Service'' \<notin> set action_interfaces_list"
    by (simp add: action_interfaces_list_eq)
  show ?thesis
    unfolding s
  proof (intro conjI impI)
    show "action_interfaces_list =
      [''goal_service'', ''cancel_service'', ''result_service'', ''feedback_topic'', ''status_topic'']"
      by (rule action_interfaces_list_eq)
  next
    assume "n \<in> set action_interfaces_list"
    then show "\<exists>w. main_setup (a\<lparr>interfaces := [n]\<rparr>) Resolved tab = Inr w" by (rule yes)
  next
    assume "n \<notin> set action_interfaces_list"
    then show "main_setup (a\<lparr>interfaces := [n]\<rparr>) res tab =
      Inl (Returned (incorrect_interface n), [])" by (rule no)
  next
    show "main_setup (a\<lparr>interfaces := [enum_value i]\<rparr>) res tab =
      Inl (Returned (incorrect_interface (enum_value i)), [])" by (rule no [OF up])
  next
    show "main_setup (a\<lparr>interfaces := [''Goal_Service'']\<rparr>) res tab =
      Inl (Returned (incorrect_interface ''Goal_Service''), [])" by (rule no [OF mixed])
  qed
qed

theorem interface_names_are_matched_exactly_witness:
  "''goal_service'' \<in> {''goal_service'', ''cancel_service'', ''result_service'',
      ''feedback_topic'', ''status_topic''} \<and>
   (\<exists>w. main_setup (example_args\<lparr>interfaces := [''goal_service'']\<rparr>) Resolved example_table = Inr w) \<and>
   ''GOAL_SERVICE'' \<notin> {''goal_service'', ''cancel_service'', ''result_service'',
      ''feedback_topic'', ''status_topic''} \<and>
   main_setup (example_args\<lparr>interfaces := [''GOAL_SERVICE'']\<rparr>) Resolved example_table =
     Inl (Returned (incorrect_interface ''GOAL_SERVICE''), [])"
proof -
  have 1: "''goal_service'' \<in> {''goal_service'', ''cancel_service'', ''result_service'',
      ''feedback_topic'', ''status_topic''}" by simp
  have 2: "''GOAL_SERVICE'' \<notin> {''goal_service'', ''cancel_service'', ''result_service'',
      ''feedback_topic'', ''status_topic''}" by simp
  have 3: "\<exists>w. main_setup (example_args\<lparr>interfaces := [''goal_service'']\<rparr>) Resolved example_table = Inr w"
    by (rule interface_names_are_matched_exactly
          [where n = "''goal_service''" and a = example_args and tab = example_table,
           THEN conjunct2, THEN conjunct1, THEN mp, OF 1])
  have 4: "main_setup (example_args\<lparr>interfaces := [''GOAL_SERVICE'']\<rparr>) Resolved example_table =
     Inl (Returned (incorrect_interface ''GOAL_SERVICE''), [])"
    by (rule interface_names_are_matched_exactly
          [where n = "''GOAL_SERVICE''" and a = example_args and tab = example_table
             and res = Resolved,
           THEN conjunct2, THEN conjunct2, THEN conjunct1, THEN mp, OF 2])
  show ?thesis
    by (intro conjI) (fact 1 3 2 4)+
qed

section \<open>The loop of the output thread\<close>

lemma handler_AtWhile_stop:
  "handler w = AtWhile \<Longrightarrow> \<not> run_thread w \<Longrightarrow> message_handler w = w\<lparr>handler := Finished\<rparr>"
  by (simp add: message_handler_def)

lemma handler_AtWhile_go:
  "handler w = AtWhile \<Longrightarrow> run_thread w \<Longrightarrow> message_handler w = w\<lparr>handler := AtGet\<rparr>"
  by (simp add: message_handler_def)

lemma handler_AtGet_empty:
  "handler w = AtGet \<Longrightarrow> items (output_msg_queue w) = [] \<Longrightarrow>
   message_handler w = w\<lparr>handler := AtWhile\<rparr>"
  by (simp add: message_handler_def get_def)

lemma handler_AtGet_item:
  "handler w = AtGet \<Longrightarrow> items (output_msg_queue w) = r # rs \<Longrightarrow>
   message_handler w =
     w\<lparr>output_msg_queue := (output_msg_queue w)\<lparr>items := rs\<rparr>, handler := AtPrint r\<rparr>"
  by (simp add: message_handler_def get_def)

lemma handler_AtPrint:
  "handler w = AtPrint m \<Longrightarrow>
   message_handler w = w\<lparr>stdout := stdout w @ [m], handler := AtWhile\<rparr>"
  by (simp add: message_handler_def)

lemma handler_Finished: "handler w = Finished \<Longrightarrow> message_handler w = w"
  by (simp add: message_handler_def)

lemma handler_finishes_at_while:
  assumes "handler w \<noteq> Finished" and "handler (message_handler w) = Finished"
  shows "handler w = AtWhile \<and> \<not> run_thread w"
proof (cases "handler w")
  case AtWhile
  with assms(2) show ?thesis by (cases "run_thread w") (simp_all add: message_handler_def)
next
  case AtGet
  with assms(2) show ?thesis
    by (cases "items (output_msg_queue w)") (simp_all add: message_handler_def get_def)
next
  case (AtPrint m)
  with assms(2) show ?thesis by (simp add: message_handler_def)
next
  case Finished
  with assms(1) show ?thesis by simp
qed

lemma handler_AtGet_item_written:
  assumes "handler w = AtGet" and "items (output_msg_queue w) = r # rs"
  shows "message_handler (message_handler w) =
         w\<lparr>output_msg_queue := (output_msg_queue w)\<lparr>items := rs\<rparr>,
           stdout := stdout w @ [r], handler := AtWhile\<rparr>"
proof -
  let ?w1 = "w\<lparr>output_msg_queue := (output_msg_queue w)\<lparr>items := rs\<rparr>, handler := AtPrint r\<rparr>"
  have 1: "message_handler w = ?w1" using assms by (rule handler_AtGet_item)
  have "handler ?w1 = AtPrint r" by simp
  from handler_AtPrint [OF this] have "message_handler ?w1 =
      w\<lparr>output_msg_queue := (output_msg_queue w)\<lparr>items := rs\<rparr>,
        stdout := stdout w @ [r], handler := AtWhile\<rparr>"
    by simp
  with 1 show ?thesis by simp
qed

text \<open>
  C3, as the code has it.  The output thread tests \<^verbatim>\<open>run_thread\<close> at the head of every
  turn of its loop, before it calls \<^verbatim>\<open>get\<close>.  It ends only there and only when the flag is
  false, and it ends then whatever the queue holds, without a further \<^verbatim>\<open>get\<close>.  While the
  flag is true it goes on to \<^verbatim>\<open>get\<close>; a record that \<^verbatim>\<open>get\<close> returns is printed by the next
  step, whatever the flag; when \<^verbatim>\<open>get\<close> raises \<^verbatim>\<open>Empty\<close> the thread is back at the test of
  the flag.
\<close>

theorem output_thread_loop:
  "(handler w \<noteq> Finished \<and> handler (message_handler w) = Finished \<longrightarrow>
      handler w = AtWhile \<and> \<not> run_thread w) \<and>
   (handler w = AtWhile \<and> \<not> run_thread w \<longrightarrow> message_handler w = w\<lparr>handler := Finished\<rparr>) \<and>
   (handler w = AtWhile \<and> run_thread w \<longrightarrow> message_handler w = w\<lparr>handler := AtGet\<rparr>) \<and>
   (handler w = AtGet \<and> items (output_msg_queue w) = r # rs \<longrightarrow>
      message_handler (message_handler w) =
        w\<lparr>output_msg_queue := (output_msg_queue w)\<lparr>items := rs\<rparr>,
          stdout := stdout w @ [r], handler := AtWhile\<rparr>) \<and>
   (handler w = AtGet \<and> items (output_msg_queue w) = [] \<longrightarrow>
      message_handler w = w\<lparr>handler := AtWhile\<rparr>) \<and>
   (handler w = Finished \<longrightarrow> message_handler w = w)"
  using handler_finishes_at_while [of w] handler_AtWhile_stop [of w] handler_AtWhile_go [of w]
    handler_AtGet_item_written [of w r rs] handler_AtGet_empty [of w] handler_Finished [of w]
  by blast


lemma destroy_frame:
  "output_msg_queue (destroy i w) = output_msg_queue w"
  "stdout (destroy i w) = stdout w"
  "handler (destroy i w) = handler w"
  "run_thread (destroy i w) = run_thread w"
  "subscriptions (destroy i w) = removeAll i (subscriptions w)"
  "effects (destroy i w) =
     effects w @ (if i \<in> set (subscriptions w) then [SubscriptionDestroyed i] else [])"
  by (simp_all add: destroy_def)

lemma main_shutdown_frame:
  "output_msg_queue (main_shutdown w) = output_msg_queue w"
  "stdout (main_shutdown w) = stdout w"
  "handler (main_shutdown w) = handler w"
  "run_thread (main_shutdown w) = False"
  by (simp_all add: main_shutdown_def Let_def destroy_frame)

lemma ActionInterfaces_UNIV:
  "UNIV = {GOAL_SERVICE, CANCEL_SERVICE, RESULT_SERVICE, FEEDBACK_TOPIC, STATUS_TOPIC}"
proof -
  have "i \<in> {GOAL_SERVICE, CANCEL_SERVICE, RESULT_SERVICE, FEEDBACK_TOPIC, STATUS_TOPIC}" for i
    by (cases i) simp_all
  then show ?thesis by blast
qed

lemma main_shutdown_subscriptions: "subscriptions (main_shutdown w) = []"
proof -
  have "set (subscriptions (main_shutdown w)) =
        set (subscriptions w) -
          {GOAL_SERVICE, CANCEL_SERVICE, RESULT_SERVICE, FEEDBACK_TOPIC, STATUS_TOPIC}"
    by (simp add: main_shutdown_def Let_def destroy_frame) blast
  also have "\<dots> = {}" by (simp only: ActionInterfaces_UNIV [symmetric] Diff_UNIV)
  finally show ?thesis by simp
qed

lemma main_shutdown_effects:
  "effects (main_shutdown w) =
     effects w @ [NodeRemoved] @
     map SubscriptionDestroyed
       (filter (\<lambda>i. i \<in> set (subscriptions w)) ActionInterfaces_members) @
     [RunThreadSet False] @ (if handler w \<noteq> Finished then [ThreadJoined 1] else [])"
  by (simp add: main_shutdown_def Let_def destroy_frame ActionInterfaces_members_def)

text \<open>
  The two records of the example are in the queue and the output thread stands at the
  test of its loop when \<^verbatim>\<open>main\<close> leaves the executor and sets \<^verbatim>\<open>run_thread\<close> to false: the next
  step of the thread ends it, nothing has been printed, and both records are still in the
  queue.
\<close>

theorem output_thread_abandons_available_records:
  "run example_externals example_ticks example_world = Inr example_loaded \<and>
   handler (main_shutdown example_loaded) = AtWhile \<and>
   run_thread (main_shutdown example_loaded) = False \<and>
   items (output_msg_queue (main_shutdown example_loaded)) =
     [example_goal_record, example_status_record] \<and>
   handler (message_handler (main_shutdown example_loaded)) = Finished \<and>
   stdout (message_handler (main_shutdown example_loaded)) = [] \<and>
   items (output_msg_queue (message_handler (main_shutdown example_loaded))) =
     [example_goal_record, example_status_record]"
proof -
  let ?w = "main_shutdown example_loaded"
  have h: "handler ?w = AtWhile"
    by (simp add: main_shutdown_frame example_loaded_def example_world_def)
  have r: "\<not> run_thread ?w" by (simp add: main_shutdown_frame)
  have q: "items (output_msg_queue ?w) = [example_goal_record, example_status_record]"
    by (simp add: main_shutdown_frame example_loaded_def)
  have s: "stdout ?w = []"
    by (simp add: main_shutdown_frame example_loaded_def example_world_def)
  have m: "message_handler ?w = ?w\<lparr>handler := Finished\<rparr>"
    using h r by (rule handler_AtWhile_stop)
  show ?thesis
    unfolding m using example_run h r q s by simp
qed

theorem output_thread_loop_witness:
  "handler (main_shutdown example_loaded) \<noteq> Finished \<and>
   handler (message_handler (main_shutdown example_loaded)) = Finished \<and>
   handler (main_shutdown example_loaded) = AtWhile \<and>
   \<not> run_thread (main_shutdown example_loaded) \<and>
   message_handler (main_shutdown example_loaded) =
     (main_shutdown example_loaded)\<lparr>handler := Finished\<rparr> \<and>
   handler example_loaded = AtWhile \<and> run_thread example_loaded \<and>
   message_handler example_loaded = example_loaded\<lparr>handler := AtGet\<rparr> \<and>
   handler (example_loaded\<lparr>handler := AtGet\<rparr>) = AtGet \<and>
   items (output_msg_queue (example_loaded\<lparr>handler := AtGet\<rparr>)) =
     example_goal_record # [example_status_record] \<and>
   stdout (message_handler (message_handler (example_loaded\<lparr>handler := AtGet\<rparr>))) =
     [example_goal_record] \<and>
   handler (example_world\<lparr>handler := AtGet\<rparr>) = AtGet \<and>
   items (output_msg_queue (example_world\<lparr>handler := AtGet\<rparr>)) = [] \<and>
   message_handler (example_world\<lparr>handler := AtGet\<rparr>) = example_world\<lparr>handler := AtWhile\<rparr>"
proof -
  let ?s = "main_shutdown example_loaded"
  let ?g = "example_loaded\<lparr>handler := AtGet\<rparr>"
  let ?e = "example_world\<lparr>handler := AtGet\<rparr>"
  have h: "handler ?s = AtWhile"
    by (simp add: main_shutdown_frame example_loaded_def example_world_def)
  have r: "\<not> run_thread ?s" by (simp add: main_shutdown_frame)
  have 2: "message_handler ?s = ?s\<lparr>handler := Finished\<rparr>"
    using output_thread_loop [of ?s] h r by blast
  have hl: "handler example_loaded = AtWhile" and rl: "run_thread example_loaded"
    by (simp_all add: example_loaded_def example_world_def)
  have 3: "message_handler example_loaded = example_loaded\<lparr>handler := AtGet\<rparr>"
    using output_thread_loop [of example_loaded] hl rl by blast
  have hg: "handler ?g = AtGet" by simp
  have ig: "items (output_msg_queue ?g) = example_goal_record # [example_status_record]"
    by (simp add: example_loaded_def)
  have "message_handler (message_handler ?g) =
        ?g\<lparr>output_msg_queue := (output_msg_queue ?g)\<lparr>items := [example_status_record]\<rparr>,
           stdout := stdout ?g @ [example_goal_record], handler := AtWhile\<rparr>"
    using output_thread_loop [of ?g example_goal_record "[example_status_record]"] hg ig
    by blast
  then have 4: "stdout (message_handler (message_handler ?g)) = [example_goal_record]"
    by (simp add: example_loaded_def example_world_def)
  have he: "handler ?e = AtGet" by simp
  have ie: "items (output_msg_queue ?e) = []" by (simp add: example_world_def)
  have "message_handler ?e = ?e\<lparr>handler := AtWhile\<rparr>"
    using output_thread_loop [of ?e] he ie by blast
  then have 5: "message_handler ?e = example_world\<lparr>handler := AtWhile\<rparr>" by simp
  have 1: "handler ?s \<noteq> Finished" using h by simp
  have f: "handler (message_handler ?s) = Finished" unfolding 2 by simp
  show ?thesis
    by (intro conjI) (fact 1 f h r 2 hl rl 3 hg ig 4 he ie 5)+
qed

section \<open>Shutdown\<close>

lemma message_handler_frame:
  "run_thread (message_handler w) = run_thread w"
  "subscriptions (message_handler w) = subscriptions w"
  "effects (message_handler w) = effects w"
  by (simp_all add: message_handler_def get_def split: handler_pc.splits list.splits)

lemma funpow_handler_frame:
  "run_thread ((message_handler ^^ n) w) = run_thread w \<and>
   subscriptions ((message_handler ^^ n) w) = subscriptions w \<and>
   effects ((message_handler ^^ n) w) = effects w"
  by (induction n) (simp_all add: message_handler_frame)

lemma stopped_at_rest:
  "\<not> run_thread w \<Longrightarrow> handler w = AtWhile \<or> handler w = Finished \<Longrightarrow>
   stdout ((message_handler ^^ n) w) = stdout w \<and>
   output_msg_queue ((message_handler ^^ n) w) = output_msg_queue w \<and>
   (0 < n \<longrightarrow> handler ((message_handler ^^ n) w) = Finished)"
proof (induction n arbitrary: w)
  case 0
  then show ?case by simp
next
  case (Suc n)
  from Suc.prems have m: "message_handler w = w\<lparr>handler := Finished\<rparr>"
    using handler_AtWhile_stop [of w] handler_Finished [of w] by auto
  have "\<not> run_thread (w\<lparr>handler := Finished\<rparr>)"
    and "handler (w\<lparr>handler := Finished\<rparr>) = AtWhile \<or> handler (w\<lparr>handler := Finished\<rparr>) = Finished"
    using Suc.prems by simp_all
  from Suc.IH [OF this] m show ?case
    by (cases n) (simp_all add: funpow_swap1)
qed

lemma stopped_at_print:
  assumes "\<not> run_thread w" and "handler w = AtPrint m"
  shows "(stdout ((message_handler ^^ n) w) = stdout w \<or>
          stdout ((message_handler ^^ n) w) = stdout w @ [m]) \<and>
         output_msg_queue ((message_handler ^^ n) w) = output_msg_queue w \<and>
         (2 \<le> n \<longrightarrow> handler ((message_handler ^^ n) w) = Finished)"
proof (cases n)
  case 0
  then show ?thesis by simp
next
  case (Suc k)
  let ?w1 = "w\<lparr>stdout := stdout w @ [m], handler := AtWhile\<rparr>"
  have m1: "message_handler w = ?w1" using assms(2) by (rule handler_AtPrint)
  have "\<not> run_thread ?w1" and "handler ?w1 = AtWhile \<or> handler ?w1 = Finished"
    using assms(1) by simp_all
  from stopped_at_rest [OF this, of k] m1 Suc show ?thesis
    by (simp add: funpow_swap1)
qed

lemma stopped_at_get:
  assumes "\<not> run_thread w" and "handler w = AtGet"
  shows "(stdout ((message_handler ^^ n) w) = stdout w \<or>
          (\<exists>m. stdout ((message_handler ^^ n) w) = stdout w @ [m])) \<and>
         output_msg_queue ((message_handler ^^ Suc n) w) = output_msg_queue (message_handler w) \<and>
         (3 \<le> n \<longrightarrow> handler ((message_handler ^^ n) w) = Finished)"
proof (cases "items (output_msg_queue w)")
  case Nil
  let ?w1 = "w\<lparr>handler := AtWhile\<rparr>"
  have m1: "message_handler w = ?w1" using assms(2) Nil by (rule handler_AtGet_empty)
  have p: "\<not> run_thread ?w1" "handler ?w1 = AtWhile \<or> handler ?w1 = Finished"
    using assms(1) by simp_all
  show ?thesis
  proof (cases n)
    case 0
    then show ?thesis by simp
  next
    case (Suc k)
    from stopped_at_rest [OF p, of k] stopped_at_rest [OF p, of n] m1 Suc show ?thesis
      by (simp add: funpow_swap1)
  qed
next
  case (Cons r rs)
  let ?w1 = "w\<lparr>output_msg_queue := (output_msg_queue w)\<lparr>items := rs\<rparr>, handler := AtPrint r\<rparr>"
  have m1: "message_handler w = ?w1" using assms(2) Cons by (rule handler_AtGet_item)
  have p: "\<not> run_thread ?w1" "handler ?w1 = AtPrint r"
    using assms(1) by simp_all
  show ?thesis
  proof (cases n)
    case 0
    from stopped_at_print [OF p, of 0] m1 0 show ?thesis by simp
  next
    case (Suc k)
    from stopped_at_print [OF p, of k] stopped_at_print [OF p, of n] m1 Suc show ?thesis
      by (auto simp add: funpow_swap1)
  qed
qed

lemma stopped_thread:
  assumes "\<not> run_thread w"
  shows "(stdout ((message_handler ^^ n) w) = stdout w \<or>
          (\<exists>m. stdout ((message_handler ^^ n) w) = stdout w @ [m])) \<and>
         output_msg_queue ((message_handler ^^ Suc n) w) = output_msg_queue (message_handler w) \<and>
         (handler w \<noteq> AtGet \<longrightarrow>
            output_msg_queue ((message_handler ^^ n) w) = output_msg_queue w) \<and>
         (3 \<le> n \<longrightarrow> handler ((message_handler ^^ n) w) = Finished)"
proof (cases "handler w")
  case AtWhile
  with stopped_at_rest [OF assms, of n] stopped_at_rest [OF assms, of "Suc n"]
    stopped_at_rest [OF assms, of 1]
  show ?thesis by auto
next
  case AtGet
  with stopped_at_get [OF assms, of n] show ?thesis by simp
next
  case (AtPrint m)
  with stopped_at_print [OF assms, of m n] stopped_at_print [OF assms, of m "Suc n"]
    stopped_at_print [OF assms, of m 1]
  show ?thesis by auto
next
  case Finished
  with stopped_at_rest [OF assms, of n] stopped_at_rest [OF assms, of "Suc n"]
    stopped_at_rest [OF assms, of 1]
  show ?thesis by auto
qed


lemma main_after_run:
  "main_setup a res tab = Inr w0 \<Longrightarrow> run ext ticks w0 = Inr w \<Longrightarrow>
   main ext a res tab ticks =
     Inr ((main_shutdown w)\<lparr>effects := effects (main_shutdown w) @ [NodeExited]\<rparr>)"
  by (simp add: main_def Let_def)

text \<open>
  C8.  When the executor's loop has ended, \<^verbatim>\<open>main\<close> removes the node, destroys every
  subscription there is, in the order of the enum, only then sets \<^verbatim>\<open>run_thread\<close> to false,
  and last joins the output thread, if it is alive, with a timeout of 1; it touches
  neither the queue nor the output, and after the join it only leaves the node.  No
  subscription is left, so from then on no callback runs and nothing is put in the
  queue.  After the flag is set the output thread reads the queue at most once, as its
  very next step and only if it stood in \<^verbatim>\<open>get\<close>; it prints at most one more record, the
  one it already had or got then, and it has ended after three steps.  Every record in
  the queue after that first step stays there unprinted.
\<close>

theorem shutdown_destroys_then_stops:
  fixes ext :: "'m externals"
  shows "effects (main_shutdown w) =
           effects w @ [NodeRemoved] @
           map SubscriptionDestroyed
             (filter (\<lambda>i. i \<in> set (subscriptions w)) ActionInterfaces_members) @
           [RunThreadSet False] @ (if handler w \<noteq> Finished then [ThreadJoined 1] else []) \<and>
         subscriptions (main_shutdown w) = [] \<and>
         \<not> run_thread (main_shutdown w) \<and>
         output_msg_queue (main_shutdown w) = output_msg_queue w \<and>
         stdout (main_shutdown w) = stdout w \<and>
         (main_setup a res tab = Inr w0 \<and> run ext ticks w0 = Inr w \<longrightarrow>
            main ext a res tab ticks =
              Inr ((main_shutdown w)\<lparr>effects := effects (main_shutdown w) @ [NodeExited]\<rparr>)) \<and>
         spin_once ext i msg ((message_handler ^^ n) (main_shutdown w)) =
           Inr ((message_handler ^^ n) (main_shutdown w)) \<and>
         (stdout ((message_handler ^^ n) (main_shutdown w)) = stdout w \<or>
          (\<exists>m. stdout ((message_handler ^^ n) (main_shutdown w)) = stdout w @ [m])) \<and>
         output_msg_queue ((message_handler ^^ Suc n) (main_shutdown w)) =
           output_msg_queue (message_handler (main_shutdown w)) \<and>
         (handler w \<noteq> AtGet \<longrightarrow>
            output_msg_queue ((message_handler ^^ n) (main_shutdown w)) = output_msg_queue w) \<and>
         (3 \<le> n \<longrightarrow> handler ((message_handler ^^ n) (main_shutdown w)) = Finished)"
proof -
  let ?s = "main_shutdown w"
  have r: "\<not> run_thread ?s" by (simp add: main_shutdown_frame)
  have "subscriptions ((message_handler ^^ n) ?s) = []"
    using funpow_handler_frame [of n ?s] by (simp add: main_shutdown_subscriptions)
  then have sp: "spin_once ext i msg ((message_handler ^^ n) ?s) = Inr ((message_handler ^^ n) ?s)"
    by (simp add: spin_once_def)
  note st = stopped_thread [OF r, of n, unfolded main_shutdown_frame]
  from st have 1: "stdout ((message_handler ^^ n) ?s) = stdout w \<or>
          (\<exists>m. stdout ((message_handler ^^ n) ?s) = stdout w @ [m])"
    by (rule conjunct1)
  from st have 2: "output_msg_queue ((message_handler ^^ Suc n) ?s) =
           output_msg_queue (message_handler ?s)"
    by (rule conjunct2 [THEN conjunct1])
  from st have 3: "handler w \<noteq> AtGet \<longrightarrow>
            output_msg_queue ((message_handler ^^ n) ?s) = output_msg_queue w"
    by (rule conjunct2 [THEN conjunct2, THEN conjunct1])
  from st have 4: "3 \<le> n \<longrightarrow> handler ((message_handler ^^ n) ?s) = Finished"
    by (rule conjunct2 [THEN conjunct2, THEN conjunct2])
  have 5: "main_setup a res tab = Inr w0 \<and> run ext ticks w0 = Inr w \<longrightarrow>
            main ext a res tab ticks =
              Inr ((main_shutdown w)\<lparr>effects := effects (main_shutdown w) @ [NodeExited]\<rparr>)"
    using main_after_run [of a res tab w0 ext ticks w] by blast
  show ?thesis
    by (intro conjI) (fact main_shutdown_effects main_shutdown_subscriptions r
        main_shutdown_frame 5 sp 1 2 3 4)+
qed

theorem shutdown_destroys_then_stops_witness:
  "effects (main_shutdown example_loaded) =
     [QueueCreated 2, ThreadStarted, NodeEntered, SubscriptionCreated GOAL_SERVICE,
      SubscriptionCreated STATUS_TOPIC, NodeAdded, NodeRemoved,
      SubscriptionDestroyed GOAL_SERVICE, SubscriptionDestroyed STATUS_TOPIC,
      RunThreadSet False, ThreadJoined 1] \<and>
   main_setup example_args Resolved example_table = Inr example_world \<and>
   run example_externals example_ticks example_world = Inr example_loaded \<and>
   main example_externals example_args Resolved example_table example_ticks =
     Inr ((main_shutdown example_loaded)
            \<lparr>effects := effects (main_shutdown example_loaded) @ [NodeExited]\<rparr>) \<and>
   handler example_loaded \<noteq> AtGet \<and>
   output_msg_queue ((message_handler ^^ 3) (main_shutdown example_loaded)) =
     output_msg_queue example_loaded \<and>
   (3::nat) \<le> 3 \<and>
   handler ((message_handler ^^ 3) (main_shutdown example_loaded)) = Finished"
proof -
  note t = shutdown_destroys_then_stops [where w = example_loaded and n = 3
      and a = example_args and res = Resolved and tab = example_table and w0 = example_world
      and ext = example_externals and ticks = example_ticks]
  have h: "handler example_loaded \<noteq> AtGet"
    by (simp add: example_loaded_def example_world_def)
  have "effects (main_shutdown example_loaded) =
           effects example_loaded @ [NodeRemoved] @
           map SubscriptionDestroyed
             (filter (\<lambda>i. i \<in> set (subscriptions example_loaded)) ActionInterfaces_members) @
           [RunThreadSet False] @
           (if handler example_loaded \<noteq> Finished then [ThreadJoined 1] else [])"
    by (rule t [THEN conjunct1])
  then have 1: "effects (main_shutdown example_loaded) =
     [QueueCreated 2, ThreadStarted, NodeEntered, SubscriptionCreated GOAL_SERVICE,
      SubscriptionCreated STATUS_TOPIC, NodeAdded, NodeRemoved,
      SubscriptionDestroyed GOAL_SERVICE, SubscriptionDestroyed STATUS_TOPIC,
      RunThreadSet False, ThreadJoined 1]"
    by (simp add: example_loaded_def example_world_def ActionInterfaces_members_def)
  have 2: "main example_externals example_args Resolved example_table example_ticks =
     Inr ((main_shutdown example_loaded)
            \<lparr>effects := effects (main_shutdown example_loaded) @ [NodeExited]\<rparr>)"
    by (rule t [THEN conjunct2, THEN conjunct2, THEN conjunct2, THEN conjunct2, THEN conjunct2,
          THEN conjunct1, THEN mp, OF conjI [OF example_world_setup example_run]])
  have 3: "output_msg_queue ((message_handler ^^ 3) (main_shutdown example_loaded)) =
     output_msg_queue example_loaded"
    by (rule t [THEN conjunct2, THEN conjunct2, THEN conjunct2, THEN conjunct2, THEN conjunct2,
          THEN conjunct2, THEN conjunct2, THEN conjunct2, THEN conjunct2, THEN conjunct1,
          THEN mp, OF h])
  have le: "(3::nat) \<le> 3" by simp
  have 4: "handler ((message_handler ^^ 3) (main_shutdown example_loaded)) = Finished"
    by (rule t [THEN conjunct2, THEN conjunct2, THEN conjunct2, THEN conjunct2, THEN conjunct2,
          THEN conjunct2, THEN conjunct2, THEN conjunct2, THEN conjunct2, THEN conjunct2,
          THEN mp, OF le])
  show ?thesis
    by (intro conjI) (fact 1 example_world_setup example_run 2 h 3 le 4)+
qed

section \<open>The sizes on the command line\<close>

lemma create_subscription_QueueCreated:
  "QueueCreated k \<in> set (effects (create_subscription a i w)) \<longleftrightarrow>
   QueueCreated k \<in> set (effects w)"
  by (simp add: create_subscription_def)

lemma main_setup_Inr_effects:
  assumes "main_setup a res tab = Inr w" and "QueueCreated k \<in> set (effects w)"
  shows "k = queue_size a"
proof -
  from assms(1) have f: "find (\<lambda>n. n \<notin> set action_interfaces_list) (interfaces a) = None"
    by (cases "find (\<lambda>n. n \<notin> set action_interfaces_list) (interfaces a)")
       (simp_all add: main_setup_def)
  from assms(1) f have r: "res = Resolved"
    by (cases res) (simp_all add: main_setup_def Let_def)
  from assms f r show ?thesis
    by (auto simp add: main_setup_def Let_def create_subscription_QueueCreated
        split: if_splits)
qed

lemma main_setup_Inl_effects:
  assumes "main_setup a res tab = Inl (e, effs)"
  shows "QueueCreated k \<notin> set effs"
proof (cases "find (\<lambda>n. n \<notin> set action_interfaces_list) (interfaces a)")
  case (Some bad)
  with assms show ?thesis by (simp add: main_setup_def)
next
  case None
  with assms show ?thesis
    by (cases res) (auto simp add: main_setup_def Let_def split: if_splits)
qed

lemma run_frame:
  "run ext ticks w = Inr w' \<Longrightarrow>
   effects w' = effects w \<and> maxsize (output_msg_queue w') = maxsize (output_msg_queue w)"
proof (induction ext ticks w rule: run.induct)
  case (1 ext w)
  then show ?case by simp
next
  case (2 ext ts w)
  with message_handler_frame(3) [of w] message_handler_bound [of w] show ?case by simp
next
  case (3 ext i msg ts w)
  from "3.prems" obtain w1 where s: "spin_once ext i msg w = Inr w1" and r: "run ext ts w1 = Inr w'"
    by (cases "spin_once ext i msg w") simp_all
  from spin_once_Inr [OF s]
  have "effects w1 = effects w \<and> maxsize (output_msg_queue w1) = maxsize (output_msg_queue w)"
    by (auto split: if_splits)
  with "3.IH" [OF s r] show ?case by simp
qed

lemma main_QueueCreated:
  fixes ext :: "'m externals"
  shows "(main ext a res tab ticks = Inl (e, effs) \<and> QueueCreated k \<in> set effs \<longrightarrow>
            k = queue_size a) \<and>
         (main ext a res tab ticks = Inr w \<and> QueueCreated k \<in> set (effects w) \<longrightarrow>
            k = queue_size a \<and> maxsize (output_msg_queue w) = queue_size a)"
proof (cases "main_setup a res tab")
  case (Inl x)
  obtain e' effs' where x: "x = (e', effs')" by (cases x)
  from main_setup_Inl_effects [of a res tab e' effs' k] Inl x show ?thesis
    by (auto simp add: main_def)
next
  case (Inr w0)
  note q = main_setup_Inr_effects [OF Inr, of k]
  show ?thesis
  proof (cases "run ext ticks w0")
    case (Inl err)
    with Inr q show ?thesis by (auto simp add: main_def)
  next
    case r: (Inr w1)
    from run_frame [OF r] main_setup_queue [OF Inr]
    have e1: "effects w1 = effects w0" and m1: "maxsize (output_msg_queue w1) = queue_size a"
      by (simp_all add: Queue_init_def)
    have m: "main ext a res tab ticks =
          Inr ((main_shutdown w1)\<lparr>effects := effects (main_shutdown w1) @ [NodeExited]\<rparr>)"
      using Inr r by (rule main_after_run)
    have "QueueCreated k \<in> set (effects (main_shutdown w1) @ [NodeExited]) \<longrightarrow>
          QueueCreated k \<in> set (effects w0)"
      by (auto simp add: main_shutdown_effects e1)
    with q m m1 show ?thesis
      by (auto simp add: main_shutdown_frame)
  qed
qed

lemma add_arguments_positive:
  assumes "add_arguments cl = Inr a"
  shows "0 < queue_size a \<and> 0 < truncate_length a"
proof -
  from assms obtain q l where
    q: "(case given_queue_size cl of None \<Rightarrow> Inr 100 | Some v \<Rightarrow> unsigned_int v) = Inr q"
    and l: "(case given_truncate_length cl of None \<Rightarrow> Inr DEFAULT_TRUNCATE_LENGTH
             | Some v \<Rightarrow> unsigned_int v) = Inr l"
    and a: "queue_size a = q" "truncate_length a = l"
    by (auto simp add: add_arguments_def split: sum.splits)
  from q have "0 < q"
    by (cases "given_queue_size cl") (auto simp add: unsigned_int_def split: if_splits)
  moreover from l have "0 < l"
    by (cases "given_truncate_length cl")
       (auto simp add: unsigned_int_def DEFAULT_TRUNCATE_LENGTH_def split: if_splits)
  ultimately show ?thesis using a by simp
qed

lemma add_arguments_default:
  "given_queue_size cl = None \<Longrightarrow> add_arguments cl = Inr a \<Longrightarrow> queue_size a = 100"
  by (auto simp add: add_arguments_def split: sum.splits)

lemma add_arguments_refuses:
  assumes "(given_queue_size cl = Some n \<or> given_truncate_length cl = Some n)" and "n \<le> 0"
  shows "add_arguments cl = Inl (ConfigurationError ''value must be a positive integer'')"
proof (cases "given_queue_size cl = Some n")
  case True
  with assms(2) show ?thesis by (simp add: add_arguments_def unsigned_int_def)
next
  case False
  with assms have t: "given_truncate_length cl = Some n" by simp
  show ?thesis
  proof (cases "given_queue_size cl")
    case None
    with t assms(2) show ?thesis by (simp add: add_arguments_def unsigned_int_def)
  next
    case (Some v)
    with t assms(2) show ?thesis
      by (cases "v \<le> 0") (simp_all add: add_arguments_def unsigned_int_def)
  qed
qed


text \<open>
  C4, on the parser as the spec gives it.  A queue size or a truncate length that is given
  and not positive makes the command end with a configuration error before \<^verbatim>\<open>main\<close> runs:
  with no effect at all (no queue, no thread, no subscription) and a non-zero exit.  With
  no queue size given, the queue size is 100.  Hence every queue that the command
  creates has a positive bound, which it keeps.  \<^verbatim>\<open>main\<close> itself passes \<^verbatim>\<open>args.queue_size\<close> to
  the queue unchecked; the check is the parser's alone.
\<close>

theorem nonpositive_sizes_are_configuration_errors:
  fixes ext :: "'m externals"
  shows "((given_queue_size cl = Some n \<or> given_truncate_length cl = Some n) \<and> n \<le> 0 \<longrightarrow>
            (\<exists>m. command ext cl res tab ticks = Inl (ConfigurationError m, [])) \<and>
            exits_nonzero (command ext cl res tab ticks)) \<and>
         (given_queue_size cl = None \<and> add_arguments cl = Inr a \<longrightarrow> queue_size a = 100) \<and>
         (command ext cl res tab ticks = Inl (e, effs) \<and> QueueCreated k \<in> set effs \<longrightarrow>
            0 < k) \<and>
         (command ext cl res tab ticks = Inr w \<and> QueueCreated k \<in> set (effects w) \<longrightarrow>
            0 < k \<and> maxsize (output_msg_queue w) = k)"
proof (intro conjI impI)
  assume "(given_queue_size cl = Some n \<or> given_truncate_length cl = Some n) \<and> n \<le> 0"
  then have "add_arguments cl = Inl (ConfigurationError ''value must be a positive integer'')"
    using add_arguments_refuses [of cl n] by blast
  then have c: "command ext cl res tab ticks =
                Inl (ConfigurationError ''value must be a positive integer'', [])"
    by (simp add: command_def)
  then show "\<exists>m. command ext cl res tab ticks = Inl (ConfigurationError m, [])" by blast
  from c show "exits_nonzero (command ext cl res tab ticks)" by simp
next
  assume "given_queue_size cl = None \<and> add_arguments cl = Inr a"
  then show "queue_size a = 100" using add_arguments_default [of cl a] by blast
next
  assume h: "command ext cl res tab ticks = Inl (e, effs) \<and> QueueCreated k \<in> set effs"
  show "0 < k"
  proof (cases "add_arguments cl")
    case (Inl x)
    with h show ?thesis by (auto simp add: command_def)
  next
    case (Inr a')
    with h have "main ext a' res tab ticks = Inl (e, effs)" by (simp add: command_def)
    with h main_QueueCreated [of ext a' res tab ticks e effs k] add_arguments_positive [OF Inr]
    show ?thesis by blast
  qed
next
  assume h: "command ext cl res tab ticks = Inr w \<and> QueueCreated k \<in> set (effects w)"
  show "0 < k" and "maxsize (output_msg_queue w) = k"
  proof (atomize (full), cases "add_arguments cl")
    case (Inl x)
    with h show "0 < k \<and> maxsize (output_msg_queue w) = k" by (simp add: command_def)
  next
    case (Inr a')
    with h have "main ext a' res tab ticks = Inr w" by (simp add: command_def)
    with h main_QueueCreated [of ext a' res tab ticks _ _ k w] add_arguments_positive [OF Inr]
    show "0 < k \<and> maxsize (output_msg_queue w) = k" by blast
  qed
qed

lemma example_add_arguments: "add_arguments example_command_line = Inr example_args"
  by (simp add: add_arguments_def example_command_line_def unsigned_int_def
      DEFAULT_TRUNCATE_LENGTH_def example_args_def)

theorem nonpositive_sizes_are_configuration_errors_witness:
  "given_queue_size (example_command_line\<lparr>given_queue_size := Some 0\<rparr>) = Some 0 \<and>
   (0::int) \<le> 0 \<and>
   (\<exists>m. command example_externals (example_command_line\<lparr>given_queue_size := Some 0\<rparr>)
          Resolved example_table example_ticks = Inl (ConfigurationError m, [])) \<and>
   add_arguments example_command_line = Inr example_args \<and>
   (\<exists>w. command example_externals example_command_line Resolved example_table example_ticks =
          Inr w \<and>
        QueueCreated 2 \<in> set (effects w) \<and> maxsize (output_msg_queue w) = 2)"
proof -
  let ?z = "example_command_line\<lparr>given_queue_size := Some 0\<rparr>"
  have g: "(given_queue_size ?z = Some 0 \<or> given_truncate_length ?z = Some 0) \<and> (0::int) \<le> 0"
    by simp
  have 1: "\<exists>m. command example_externals ?z Resolved example_table example_ticks =
            Inl (ConfigurationError m, [])"
    by (rule nonpositive_sizes_are_configuration_errors
          [where cl = ?z and n = 0 and ext = example_externals and res = Resolved
             and tab = example_table and ticks = example_ticks,
           THEN conjunct1, THEN mp, OF g, THEN conjunct1])
  let ?w = "(main_shutdown example_loaded)
              \<lparr>effects := effects (main_shutdown example_loaded) @ [NodeExited]\<rparr>"
  have c: "command example_externals example_command_line Resolved example_table example_ticks =
           Inr ?w"
    using main_after_run [OF example_world_setup example_run]
    by (simp add: command_def example_add_arguments)
  have "QueueCreated 2 \<in> set (effects example_loaded)"
    by (simp add: example_loaded_def example_world_def)
  then have q: "QueueCreated 2 \<in> set (effects ?w)" by (simp add: main_shutdown_effects)
  have "(0::int) < 2 \<and> maxsize (output_msg_queue ?w) = 2"
    by (rule nonpositive_sizes_are_configuration_errors
          [where cl = example_command_line and ext = example_externals and res = Resolved
             and tab = example_table and ticks = example_ticks and w = ?w and k = 2,
           THEN conjunct2, THEN conjunct2, THEN conjunct2, THEN mp, OF conjI [OF c q]])
  with c q have 2: "\<exists>w. command example_externals example_command_line Resolved example_table
        example_ticks = Inr w \<and>
        QueueCreated 2 \<in> set (effects w) \<and> maxsize (output_msg_queue w) = 2"
    by blast
  have z: "given_queue_size ?z = Some 0" and le: "(0::int) \<le> 0" by simp_all
  show ?thesis
    by (intro conjI) (fact z le 1 example_add_arguments 2)+
qed

end
